theory Spec2Isabelle
  imports Main "HOL-Library.Word"
begin

text \<open>
  A shallow embedding of the modes of operation of the aes-ts library, written from its
  TypeScript sources, and the proofs that settle the claims C1 to C10 about them.
  The definitions come first, in the order of the source classes; the theorems follow.
\<close>

unbundle bit_operations_syntax

section \<open>Byte arrays\<close>

text \<open>
  A \<^verbatim>\<open>Uint8Array\<close> is a list of 8-bit words. Storing into an element keeps the low
  eight bits, which is what arithmetic on \<open>8 word\<close> does.
\<close>

type_synonym byte = "8 word"
type_synonym bytes = "byte list"

text \<open>
  Every \<^verbatim>\<open>throw\<close> of the modelled classes is a value of this type; a function that can
  throw returns \<open>error + 'a\<close>.
\<close>

datatype error =
    InvalidKeySize
  | InvalidPlaintextSize
  | InvalidCiphertextSize
  | InvalidCounterSize
  | InvalidTagSize
  | TagSizeTooLarge
  | InvalidIvSize
  | InvalidNonceSize
  | InvalidL
  | AadTooLarge
  | InvalidDataSize
  | InvalidTweakSize
  | InvalidRadix
  | InvalidTextLength
  | CharNotInAlphabet
  | RangeError

definition ebind :: "error + 'a \<Rightarrow> ('a \<Rightarrow> error + 'b) \<Rightarrow> error + 'b" where
  "ebind m f = (case m of Inl e \<Rightarrow> Inl e | Inr x \<Rightarrow> f x)"

definition zeros :: "nat \<Rightarrow> bytes" where
  "zeros n = replicate n 0"

text \<open>
  \<^verbatim>\<open>a[i]\<close> read inside a bitwise expression: past the end the read gives
  \<^verbatim>\<open>undefined\<close>, which \<^verbatim>\<open>^\<close>, \<^verbatim>\<open>|\<close>, \<^verbatim>\<open>&\<close> and the shifts take as 0.
\<close>

definition rd :: "bytes \<Rightarrow> nat \<Rightarrow> byte" where
  "rd a i = (if i < length a then a ! i else 0)"

text \<open>
  \<^verbatim>\<open>xor(a, b)\<close> of \<^verbatim>\<open>utils/xor\<close>: the result has the length of \<open>a\<close>; where \<open>b\<close> is
  shorter its missing elements count as 0.
\<close>

fun xor_bytes :: "bytes \<Rightarrow> bytes \<Rightarrow> bytes" where
  "xor_bytes [] b = []"
| "xor_bytes (x # a) [] = x # xor_bytes a []"
| "xor_bytes (x # a) (y # b) = (x XOR y) # xor_bytes a b"

text \<open>
  \<^verbatim>\<open>a.subarray(from, to)\<close> for indices that are not negative: both are clamped to the
  length, and the result is empty when \<open>to \<le> from\<close>.
\<close>

definition subarray :: "bytes \<Rightarrow> nat \<Rightarrow> nat \<Rightarrow> bytes" where
  "subarray a from to = take (to - from) (drop from a)"

text \<open>
  \<^verbatim>\<open>a.subarray(from, to)\<close> for any integers: a negative index counts from the end.
\<close>

definition rel_index :: "nat \<Rightarrow> int \<Rightarrow> nat" where
  "rel_index len i = (if i < 0 then nat (max (int len + i) 0) else min (nat i) len)"

definition subarray_rel :: "bytes \<Rightarrow> int \<Rightarrow> int \<Rightarrow> bytes" where
  "subarray_rel a from to =
     subarray a (rel_index (length a) from) (rel_index (length a) to)"

text \<open>
  \<^verbatim>\<open>dst.set(src, offset)\<close>: a \<^verbatim>\<open>RangeError\<close> when the offset is negative or the source
  does not fit; otherwise the elements from \<open>offset\<close> on are overwritten.
\<close>

definition write_at :: "bytes \<Rightarrow> bytes \<Rightarrow> nat \<Rightarrow> bytes" where
  "write_at dst src offset = take offset dst @ src @ drop (offset + length src) dst"

definition set_bytes :: "bytes \<Rightarrow> bytes \<Rightarrow> int \<Rightarrow> error + bytes" where
  "set_bytes dst src offset =
     (if offset < 0 \<or> int (length dst) < offset + int (length src) then Inl RangeError
      else Inr (write_at dst src (nat offset)))"

text \<open>\<^verbatim>\<open>t[i] = a[i] ^ b[i]\<close> for \<open>i\<close> below 16, into a fresh 16-byte array.\<close>

definition xor16 :: "bytes \<Rightarrow> bytes \<Rightarrow> bytes" where
  "xor16 a b = map (\<lambda>i. rd a i XOR rd b i) [0..<16]"

section \<open>The block cipher\<close>

text \<open>
  Class \<^verbatim>\<open>AES\<close> computes its rounds from the tables of \<^verbatim>\<open>./constants\<close> (\<^verbatim>\<open>S\<close>, \<^verbatim>\<open>SI\<close>,
  \<^verbatim>\<open>T1\<close> to \<^verbatim>\<open>T8\<close>, \<^verbatim>\<open>U1\<close> to \<^verbatim>\<open>U4\<close>, \<^verbatim>\<open>RCON\<close>, \<^verbatim>\<open>NUMBER_OF_ROUNDS\<close>), which are
  not among the sources. The table computation is therefore a parameter: two functions
  from the key and a 16-byte block to the bytes written into the result. What the class
  itself decides is modelled: the constructor refuses a key that is not 16, 24 or 32
  bytes long, \<^verbatim>\<open>encrypt\<close> and \<^verbatim>\<open>decrypt\<close> refuse an input that is not 16 bytes long, and
  the result is a fresh \<^verbatim>\<open>Uint8Array(16)\<close>.
\<close>

record cipher =
  enc :: "bytes \<Rightarrow> bytes \<Rightarrow> bytes"
  dec :: "bytes \<Rightarrow> bytes \<Rightarrow> bytes"

definition block16 :: "bytes \<Rightarrow> bytes" where
  "block16 r = take 16 (r @ zeros 16)"

definition AES_new :: "bytes \<Rightarrow> error + bytes" where
  "AES_new key = (if length key \<in> {16, 24, 32} then Inr key else Inl InvalidKeySize)"

definition AES_encrypt :: "cipher \<Rightarrow> bytes \<Rightarrow> bytes \<Rightarrow> error + bytes" where
  "AES_encrypt C key plaintext =
     (if length plaintext \<noteq> 16 then Inl InvalidPlaintextSize
      else Inr (block16 (enc C key plaintext)))"

definition AES_decrypt :: "cipher \<Rightarrow> bytes \<Rightarrow> bytes \<Rightarrow> error + bytes" where
  "AES_decrypt C key ciphertext =
     (if length ciphertext \<noteq> 16 then Inl InvalidCiphertextSize
      else Inr (block16 (dec C key ciphertext)))"

section \<open>Counter and CTR\<close>

text \<open>
  \<^verbatim>\<open>Counter.increment\<close>: the loop runs \<open>i\<close> from 15 down to 0; a byte 255 becomes 0 and
  the loop goes on, any other byte is incremented and the loop stops. The first argument
  of \<open>increment_loop\<close> is \<open>i + 1\<close>.
\<close>

fun increment_loop :: "nat \<Rightarrow> bytes \<Rightarrow> bytes" where
  "increment_loop 0 c = c"
| "increment_loop (Suc i) c =
     (if c ! i = 255 then increment_loop i (c[i := 0]) else c[i := c ! i + 1])"

definition increment :: "bytes \<Rightarrow> bytes" where
  "increment c = increment_loop 16 c"

text \<open>\<^verbatim>\<open>new Counter(bytes)\<close>: the array must hold 16 bytes and is copied.\<close>

definition Counter_new :: "bytes \<Rightarrow> error + bytes" where
  "Counter_new initialValue =
     (if length initialValue \<noteq> 16 then Inl InvalidCounterSize else Inr initialValue)"

text \<open>
  The state of a \<^verbatim>\<open>ModeOfOperationCTR\<close>. \<open>remainingCounter\<close> is \<^verbatim>\<open>null\<close> (here the
  empty list) until the first byte is processed; it is not read before, because
  \<open>remainingCounterIndex\<close> starts at 16.
\<close>

record ctr_mode =
  ctr_key :: bytes
  counter :: bytes
  remainingCounter :: bytes
  remainingCounterIndex :: nat

definition CTR_new :: "bytes \<Rightarrow> bytes \<Rightarrow> error + ctr_mode" where
  "CTR_new key initialValue =
     ebind (AES_new key) (\<lambda>k.
     ebind (Counter_new initialValue) (\<lambda>c.
       Inr \<lparr>ctr_key = k, counter = c, remainingCounter = [], remainingCounterIndex = 16\<rparr>))"

text \<open>One pass of the loop of \<^verbatim>\<open>ModeOfOperationCTR.encrypt\<close> on the byte \<open>p\<close>.\<close>

definition CTR_refill :: "cipher \<Rightarrow> ctr_mode \<Rightarrow> error + ctr_mode" where
  "CTR_refill C st =
     (if remainingCounterIndex st = 16
      then ebind (AES_encrypt C (ctr_key st) (counter st)) (\<lambda>ks.
             Inr (st\<lparr>remainingCounter := ks, remainingCounterIndex := 0,
                      counter := increment (counter st)\<rparr>))
      else Inr st)"

fun CTR_encrypt :: "cipher \<Rightarrow> ctr_mode \<Rightarrow> bytes \<Rightarrow> error + (bytes \<times> ctr_mode)" where
  "CTR_encrypt C st [] = Inr ([], st)"
| "CTR_encrypt C st (p # ps) =
     ebind (CTR_refill C st) (\<lambda>st1.
       let b = p XOR rd (remainingCounter st1) (remainingCounterIndex st1);
           st2 = st1\<lparr>remainingCounterIndex := remainingCounterIndex st1 + 1\<rparr>
       in ebind (CTR_encrypt C st2 ps) (\<lambda>(out, st3). Inr (b # out, st3)))"

text \<open>
  \<^verbatim>\<open>new ModeOfOperationCTR(key, counter)\<close> with a \<^verbatim>\<open>Counter\<close> object: the counter is
  taken as it is.
\<close>

definition CTR_with_counter :: "bytes \<Rightarrow> bytes \<Rightarrow> error + ctr_mode" where
  "CTR_with_counter key c =
     ebind (AES_new key) (\<lambda>k.
       Inr \<lparr>ctr_key = k, counter = c, remainingCounter = [], remainingCounterIndex = 16\<rparr>)"

section \<open>Doubling and trailing zeros\<close>

text \<open>
  \<^verbatim>\<open>_double\<close>, repeated word for word in the PMAC-SIV, XTS, CMAC and EAX classes (the
  OCB class writes \<^verbatim>\<open>>>\<close> for \<^verbatim>\<open>>>>\<close>, the same on a byte): shift the 16 bytes left by
  one bit and, when the top bit was set, XOR the last byte with 0x87.
\<close>

definition double :: "bytes \<Rightarrow> bytes" where
  "double block =
     (let msbSet = (rd block 0 AND 0x80 \<noteq> 0);
          doubled = map (\<lambda>i. push_bit 1 (rd block i) OR drop_bit 7 (rd block (i + 1))) [0..<15]
                    @ [push_bit 1 (rd block 15)]
      in if msbSet then doubled[15 := doubled ! 15 XOR 0x87] else doubled)"

text \<open>
  \<^verbatim>\<open>_ntz\<close>: 128 for 0, else the number of times the loop halves \<open>n\<close> before its low
  bit is 1. The loop is entered only for \<open>n \<noteq> 0\<close>; the test \<open>n \<noteq> 0\<close> in \<open>ntz_loop\<close> is
  there for the definition to be total.
\<close>

function ntz_loop :: "nat \<Rightarrow> nat \<Rightarrow> nat" where
  "ntz_loop n count = (if n \<noteq> 0 \<and> even n then ntz_loop (n div 2) (count + 1) else count)"
  by pat_completeness auto
termination
  by (relation "measure fst") auto

definition ntz :: "nat \<Rightarrow> nat" where
  "ntz n = (if n = 0 then 128 else ntz_loop n 0)"

text \<open>
  \<^verbatim>\<open>L_series\<close> of the PMAC-SIV and OCB constructors: \<^verbatim>\<open>[L_star]\<close>, then 64 times the
  double of the entry before.
\<close>

fun push_doubles :: "nat \<Rightarrow> nat \<Rightarrow> bytes list \<Rightarrow> bytes list" where
  "push_doubles 0 i Ls = Ls"
| "push_doubles (Suc n) i Ls = push_doubles n (i + 1) (Ls @ [double (Ls ! i)])"

definition make_L_series :: "bytes \<Rightarrow> bytes list" where
  "make_L_series Lstar = push_doubles 64 0 [Lstar]"

section \<open>Tag comparison\<close>

text \<open>
  The comparison loop of the \<^verbatim>\<open>decrypt\<close> methods: \<^verbatim>\<open>tagsMatch |= tag[i] ^ expected[i]\<close>
  for \<open>i\<close> below \<open>n\<close>, starting from 0.
\<close>

definition tags_differ :: "nat \<Rightarrow> bytes \<Rightarrow> bytes \<Rightarrow> byte" where
  "tags_differ n tag expected = fold (\<lambda>i acc. acc OR (rd tag i XOR rd expected i)) [0..<n] 0"

section \<open>Loops that can throw\<close>

text \<open>
  A \<^verbatim>\<open>for\<close> loop over the list of its index values, threading a state through a body
  that can throw: the first error ends the loop.
\<close>

fun efold :: "('a \<Rightarrow> 's \<Rightarrow> error + 's) \<Rightarrow> 'a list \<Rightarrow> 's \<Rightarrow> error + 's" where
  "efold f [] s = Inr s"
| "efold f (x # xs) s = ebind (f x s) (efold f xs)"

section \<open>JavaScript numbers in bitwise expressions\<close>

text \<open>
  \<^verbatim>\<open>x >> s\<close> converts \<open>x\<close> to a signed 32-bit integer, takes the shift count modulo 32
  and shifts arithmetically. \<^verbatim>\<open>(e) & 0xff\<close> stored into a \<^verbatim>\<open>Uint8Array\<close> is the low byte
  of \<open>e\<close>. Lengths are far below 2^53, so the numbers are exact integers.
\<close>

definition to_int32 :: "int \<Rightarrow> int" where
  "to_int32 n = (n + 2 ^ 31) mod 2 ^ 32 - 2 ^ 31"

definition js_sar :: "int \<Rightarrow> nat \<Rightarrow> int" where
  "js_sar x s = to_int32 x div 2 ^ (s mod 32)"

definition low_byte :: "int \<Rightarrow> byte" where
  "low_byte x = word_of_int x"

section \<open>PMAC-SIV\<close>

record pmac_siv =
  ps_key :: bytes
  ps_tagSize :: nat
  ps_L_star :: bytes
  ps_L_series :: "bytes list"

definition PMAC_SIV_new :: "cipher \<Rightarrow> bytes \<Rightarrow> nat \<Rightarrow> error + pmac_siv" where
  "PMAC_SIV_new C key tagSize =
     (if tagSize < 8 \<or> tagSize > 16 then Inl InvalidTagSize
      else ebind (AES_new key) (\<lambda>k.
           ebind (AES_encrypt C k (zeros 16)) (\<lambda>Lstar.
             Inr \<lparr>ps_key = k, ps_tagSize = tagSize, ps_L_star = Lstar,
                  ps_L_series = make_L_series Lstar\<rparr>)))"

text \<open>
  \<^verbatim>\<open>_pad\<close> of PMAC-SIV: the block copied into 16 zero bytes, and 0x80 after it when it
  is shorter than 16. It is called with blocks of at most 16 bytes.
\<close>

definition pmac_pad :: "bytes \<Rightarrow> bytes" where
  "pmac_pad block =
     (let padded = write_at (zeros 16) block 0
      in if length block < 16 then padded[length block := 0x80] else padded)"

text \<open>
  The loop of \<^verbatim>\<open>_pmac\<close> for \<open>i\<close> from 1 to \<open>numBlocks\<close>; the first argument counts the
  passes left.
\<close>

fun pmac_blocks :: "bytes list \<Rightarrow> bytes \<Rightarrow> nat \<Rightarrow> nat \<Rightarrow> bytes \<times> bytes \<Rightarrow> bytes \<times> bytes" where
  "pmac_blocks Ls data 0 i (offset, checksum) = (offset, checksum)"
| "pmac_blocks Ls data (Suc n) i (offset, checksum) =
     (let offset' = xor_bytes offset (Ls ! ntz i);
          from = (i - 1) * 16;
          block = subarray data from (min (from + 16) (length data));
          checksum' = xor_bytes checksum (if length block = 16 then block else pmac_pad block)
      in pmac_blocks Ls data n (i + 1) (offset', checksum'))"

definition pmac :: "cipher \<Rightarrow> pmac_siv \<Rightarrow> bytes \<Rightarrow> error + bytes" where
  "pmac C m data =
     (let numBlocks = (length data + 15) div 16;
          (offset, checksum) =
            (if numBlocks = 0 then (double (zeros 16), xor_bytes (zeros 16) (pmac_pad data))
             else pmac_blocks (ps_L_series m) data numBlocks 1 (zeros 16, zeros 16));
          finalChecksum = xor_bytes checksum offset
      in AES_encrypt C (ps_key m) finalChecksum)"

text \<open>
  The three MACs and their XOR, computed the same way at the start of \<^verbatim>\<open>encrypt\<close> and
  in the middle of \<^verbatim>\<open>decrypt\<close>: the 16-byte synthetic IV.
\<close>

definition pmac_siv_iv :: "cipher \<Rightarrow> pmac_siv \<Rightarrow> bytes \<Rightarrow> bytes \<Rightarrow> bytes \<Rightarrow> error + bytes" where
  "pmac_siv_iv C m text nonce associatedData =
     ebind (pmac C m nonce) (\<lambda>mac_nonce.
     ebind (pmac C m associatedData) (\<lambda>mac_aad.
     ebind (pmac C m text) (\<lambda>mac_text.
       Inr (xor_bytes (xor_bytes mac_nonce mac_aad) mac_text))))"

definition PMAC_SIV_encrypt ::
  "cipher \<Rightarrow> pmac_siv \<Rightarrow> bytes \<Rightarrow> bytes \<Rightarrow> bytes \<Rightarrow> error + (bytes \<times> bytes)" where
  "PMAC_SIV_encrypt C m plaintext nonce associatedData =
     ebind (pmac_siv_iv C m plaintext nonce associatedData) (\<lambda>iv_tag.
     ebind (CTR_new (ps_key m) iv_tag) (\<lambda>ctr.
     ebind (CTR_encrypt C ctr plaintext) (\<lambda>(ciphertext, ctr').
       Inr (ciphertext, subarray iv_tag 0 (ps_tagSize m)))))"

definition PMAC_SIV_decrypt ::
  "cipher \<Rightarrow> pmac_siv \<Rightarrow> bytes \<Rightarrow> bytes \<Rightarrow> bytes \<Rightarrow> bytes \<Rightarrow> error + bytes option" where
  "PMAC_SIV_decrypt C m ciphertext iv_tag nonce associatedData =
     (if length iv_tag \<noteq> ps_tagSize m then Inr None
      else
        ebind (set_bytes (zeros 16) iv_tag 0) (\<lambda>full_iv_tag.
        ebind (CTR_new (ps_key m) full_iv_tag) (\<lambda>ctr.
        ebind (CTR_encrypt C ctr ciphertext) (\<lambda>(plaintext, ctr').
        ebind (pmac_siv_iv C m plaintext nonce associatedData) (\<lambda>expected_iv_tag.
          if tags_differ (ps_tagSize m) iv_tag expected_iv_tag \<noteq> 0 then Inr None
          else Inr (Some plaintext))))))"
section \<open>XTS\<close>

record xts_mode =
  xts_key1 :: bytes
  xts_key2 :: bytes

definition XTS_new :: "bytes \<Rightarrow> error + xts_mode" where
  "XTS_new key =
     (if length key \<noteq> 32 \<and> length key \<noteq> 64 then Inl InvalidKeySize
      else let keyLen = length key div 2
           in ebind (AES_new (subarray key 0 keyLen)) (\<lambda>k1.
              ebind (AES_new (subarray key keyLen (length key))) (\<lambda>k2.
                Inr \<lparr>xts_key1 = k1, xts_key2 = k2\<rparr>)))"

text \<open>
  The loop over the full blocks that are not part of the ciphertext stealing, the same
  in \<^verbatim>\<open>encrypt\<close> and \<^verbatim>\<open>decrypt\<close> but for the block function \<open>f\<close> (\<^verbatim>\<open>aes1.encrypt\<close> or
  \<^verbatim>\<open>aes1.decrypt\<close>). The third argument counts the passes left, the fourth is \<open>i\<close>; the
  state is the output buffer and \<open>currentTweak\<close>.
\<close>

fun xts_loop ::
  "(bytes \<Rightarrow> error + bytes) \<Rightarrow> bytes \<Rightarrow> nat \<Rightarrow> nat \<Rightarrow> bytes \<times> bytes \<Rightarrow> error + (bytes \<times> bytes)" where
  "xts_loop f input 0 i (out, currentTweak) = Inr (out, currentTweak)"
| "xts_loop f input (Suc n) i (out, currentTweak) =
     (let from = i * 16;
          block = subarray input from (from + 16)
      in ebind (f (xor_bytes block currentTweak)) (\<lambda>r.
         ebind (set_bytes out (xor_bytes r currentTweak) (int from)) (\<lambda>out'.
           xts_loop f input n (i + 1) (out', double currentTweak))))"

text \<open>
  \<^verbatim>\<open>encrypt\<close>, "Caso 1": the length is a multiple of 16. \<open>numBlocks - 2\<close> is an integer
  and is negative for a single block; \<^verbatim>\<open>subarray\<close> then counts from the end and
  \<^verbatim>\<open>set\<close> refuses the offset.
\<close>

definition XTS_encrypt_aligned ::
  "cipher \<Rightarrow> xts_mode \<Rightarrow> bytes \<Rightarrow> nat \<Rightarrow> bytes \<Rightarrow> bytes \<Rightarrow> error + bytes" where
  "XTS_encrypt_aligned C m plaintext numBlocks ciphertext currentTweak =
     (let penultimateBlockP =
            subarray_rel plaintext ((int numBlocks - 2) * 16) ((int numBlocks - 1) * 16);
          lastBlockP =
            subarray_rel plaintext ((int numBlocks - 1) * 16) (int (length plaintext));
          tweak_m_minus_1 = currentTweak;
          tweak_m = double tweak_m_minus_1
      in ebind (AES_encrypt C (xts_key1 m) (xor_bytes penultimateBlockP tweak_m_minus_1))
           (\<lambda>preCiphertext.
         ebind (AES_encrypt C (xts_key1 m) (xor_bytes lastBlockP tweak_m)) (\<lambda>e.
         let finalCiphertext = xor_bytes e tweak_m_minus_1
         in ebind (set_bytes ciphertext finalCiphertext ((int numBlocks - 2) * 16))
              (\<lambda>ciphertext1.
            set_bytes ciphertext1 (xor_bytes preCiphertext tweak_m)
              ((int numBlocks - 1) * 16)))))"

text \<open>\<^verbatim>\<open>encrypt\<close>, "Caso 2": a partial block of \<open>finalBlockSize\<close> bytes at the end.\<close>

definition XTS_encrypt_partial ::
  "cipher \<Rightarrow> xts_mode \<Rightarrow> bytes \<Rightarrow> nat \<Rightarrow> nat \<Rightarrow> bytes \<Rightarrow> bytes \<Rightarrow> error + bytes" where
  "XTS_encrypt_partial C m plaintext numBlocks finalBlockSize ciphertext currentTweak =
     (let penultimateBlockP =
            subarray_rel plaintext ((int numBlocks - 1) * 16) (int numBlocks * 16);
          finalPartialBlockP =
            subarray_rel plaintext (int numBlocks * 16) (int (length plaintext));
          tweak_m_minus_1 = currentTweak;
          tweak_m = double tweak_m_minus_1
      in ebind (AES_encrypt C (xts_key1 m) (xor_bytes penultimateBlockP tweak_m_minus_1))
           (\<lambda>preCiphertext.
         let stolenData = subarray preCiphertext finalBlockSize (length preCiphertext);
             finalCiphertextBlockC = subarray preCiphertext 0 finalBlockSize
         in ebind (set_bytes ciphertext finalCiphertextBlockC (int numBlocks * 16))
              (\<lambda>ciphertext1.
            ebind (set_bytes (zeros 16) finalPartialBlockP 0) (\<lambda>b1.
            ebind (set_bytes b1 stolenData (int (length finalPartialBlockP)))
              (\<lambda>blockForPenultimateC.
            ebind (AES_encrypt C (xts_key1 m) (xor_bytes blockForPenultimateC tweak_m))
              (\<lambda>e.
            let penultimateCiphertextBlockC = xor_bytes e tweak_m_minus_1
            in set_bytes ciphertext1 penultimateCiphertextBlockC
                 ((int numBlocks - 1) * 16)))))))"

definition XTS_encrypt :: "cipher \<Rightarrow> xts_mode \<Rightarrow> bytes \<Rightarrow> bytes \<Rightarrow> error + bytes" where
  "XTS_encrypt C m plaintext tweak =
     (if length plaintext < 16 then Inl InvalidDataSize
      else if length tweak \<noteq> 16 then Inl InvalidTweakSize
      else
        ebind (AES_encrypt C (xts_key2 m) tweak) (\<lambda>tweak0.
        let numBlocks = length plaintext div 16;
            finalBlockSize = length plaintext mod 16;
            iterationLimit = (if finalBlockSize = 0 then int numBlocks - 2 else int numBlocks - 1)
        in ebind (xts_loop (AES_encrypt C (xts_key1 m)) plaintext (nat iterationLimit) 0
                    (zeros (length plaintext), tweak0))
             (\<lambda>(ciphertext, currentTweak).
                if finalBlockSize = 0
                then XTS_encrypt_aligned C m plaintext numBlocks ciphertext currentTweak
                else XTS_encrypt_partial C m plaintext numBlocks finalBlockSize
                       ciphertext currentTweak)))"

definition XTS_decrypt_aligned ::
  "cipher \<Rightarrow> xts_mode \<Rightarrow> bytes \<Rightarrow> nat \<Rightarrow> bytes \<Rightarrow> bytes \<Rightarrow> error + bytes" where
  "XTS_decrypt_aligned C m ciphertext numBlocks plaintext currentTweak =
     (let penultimateBlockC =
            subarray_rel ciphertext ((int numBlocks - 2) * 16) ((int numBlocks - 1) * 16);
          lastBlockC =
            subarray_rel ciphertext ((int numBlocks - 1) * 16) (int (length ciphertext));
          tweak_m_minus_1 = currentTweak;
          tweak_m = double tweak_m_minus_1
      in ebind (AES_decrypt C (xts_key1 m) (xor_bytes lastBlockC tweak_m))
           (\<lambda>prePlaintext.
         ebind (AES_decrypt C (xts_key1 m) (xor_bytes penultimateBlockC tweak_m_minus_1))
           (\<lambda>d.
         let finalPlaintext = xor_bytes d tweak_m
         in ebind (set_bytes plaintext (xor_bytes prePlaintext tweak_m_minus_1)
                     ((int numBlocks - 2) * 16)) (\<lambda>plaintext1.
            set_bytes plaintext1 finalPlaintext ((int numBlocks - 1) * 16)))))"

definition XTS_decrypt_partial ::
  "cipher \<Rightarrow> xts_mode \<Rightarrow> bytes \<Rightarrow> nat \<Rightarrow> nat \<Rightarrow> bytes \<Rightarrow> bytes \<Rightarrow> error + bytes" where
  "XTS_decrypt_partial C m ciphertext numBlocks finalBlockSize plaintext currentTweak =
     (let penultimateBlockC =
            subarray_rel ciphertext ((int numBlocks - 1) * 16) (int numBlocks * 16);
          finalPartialBlockC =
            subarray_rel ciphertext (int numBlocks * 16) (int (length ciphertext));
          tweak_m_minus_1 = currentTweak;
          tweak_m = double tweak_m_minus_1
      in ebind (AES_decrypt C (xts_key1 m) (xor_bytes penultimateBlockC tweak_m_minus_1))
           (\<lambda>d.
         let prePlaintext = xor_bytes d tweak_m;
             finalPlaintextBlockP = subarray prePlaintext 0 finalBlockSize
         in ebind (set_bytes plaintext finalPlaintextBlockP (int numBlocks * 16))
              (\<lambda>plaintext1.
            ebind (set_bytes (zeros 16) finalPartialBlockC 0) (\<lambda>b1.
            ebind (set_bytes b1 (subarray prePlaintext finalBlockSize (length prePlaintext))
                     (int (length finalPartialBlockC))) (\<lambda>preCiphertext.
            ebind (AES_decrypt C (xts_key1 m) preCiphertext) (\<lambda>d2.
            let penultimatePlaintextBlockP = xor_bytes d2 tweak_m_minus_1
            in set_bytes plaintext1 penultimatePlaintextBlockP
                 ((int numBlocks - 1) * 16)))))))"

definition XTS_decrypt :: "cipher \<Rightarrow> xts_mode \<Rightarrow> bytes \<Rightarrow> bytes \<Rightarrow> error + bytes" where
  "XTS_decrypt C m ciphertext tweak =
     (if length ciphertext < 16 then Inl InvalidDataSize
      else if length tweak \<noteq> 16 then Inl InvalidTweakSize
      else
        ebind (AES_encrypt C (xts_key2 m) tweak) (\<lambda>tweak0.
        let numBlocks = length ciphertext div 16;
            finalBlockSize = length ciphertext mod 16;
            iterationLimit = (if finalBlockSize = 0 then int numBlocks - 2 else int numBlocks - 1)
        in ebind (xts_loop (AES_decrypt C (xts_key1 m)) ciphertext (nat iterationLimit) 0
                    (zeros (length ciphertext), tweak0))
             (\<lambda>(plaintext, currentTweak).
                if finalBlockSize = 0
                then XTS_decrypt_aligned C m ciphertext numBlocks plaintext currentTweak
                else XTS_decrypt_partial C m ciphertext numBlocks finalBlockSize
                       plaintext currentTweak)))"

section \<open>GCM\<close>

text \<open>
  One pass of the loop of \<^verbatim>\<open>galoisMultiply\<close> for bit \<open>i\<close> of \<open>x\<close>: add \<open>v\<close> to \<open>z\<close> when the
  bit is set, shift \<open>v\<close> right by one bit over its first 16 bytes (from byte 15 down, so
  each byte takes the low bit of the old byte before it), and XOR 0xe1 into byte 0 when
  the bit shifted out was set. The classes CWC and GCM-SIV hold the same loop under the
  name \<^verbatim>\<open>polyvalMultiply\<close>.
\<close>

definition gm_step :: "bytes \<Rightarrow> nat \<Rightarrow> bytes \<times> bytes \<Rightarrow> bytes \<times> bytes" where
  "gm_step x i = (\<lambda>(z, v).
     let z' = (if bit (rd x (i div 8)) (7 - i mod 8) then xor_bytes z v else z);
         lsbSet = (rd v 15 AND 1 \<noteq> 0);
         v1 = map (\<lambda>j. if j = 0 then drop_bit 1 (v ! 0)
                        else if j \<le> 15 then drop_bit 1 (v ! j) OR push_bit 7 (v ! (j - 1) AND 1)
                        else v ! j) [0..<length v];
         v2 = (if lsbSet then v1[0 := rd v1 0 XOR 0xe1] else v1)
     in (z', v2))"

definition galoisMultiply :: "bytes \<Rightarrow> bytes \<Rightarrow> bytes" where
  "galoisMultiply x y = fst (fold (gm_step x) [0..<128] (zeros 16, y))"

text \<open>
  The two loops of \<^verbatim>\<open>ghash\<close> over the 16-byte blocks of a buffer (the last one may be
  shorter): \<^verbatim>\<open>Y[j] ^= block[j]\<close> for the bytes of the block, then
  \<^verbatim>\<open>Y = galoisMultiply(Y, H)\<close>.
\<close>

definition ghash_blocks :: "bytes \<Rightarrow> bytes \<Rightarrow> bytes \<Rightarrow> bytes" where
  "ghash_blocks H data Y0 =
     fold (\<lambda>k Y. galoisMultiply (xor_bytes Y (subarray data (16 * k) (16 * k + 16))) H)
       [0..<(length data + 15) div 16] Y0"

text \<open>
  "Fase 3" of \<^verbatim>\<open>ghash\<close>: the block of the two lengths. \<^verbatim>\<open>lenA\<close> and \<^verbatim>\<open>lenC\<close> are the
  bit lengths; byte \<open>7 - i\<close> is \<^verbatim>\<open>(lenA >> (i * 8)) & 0xff\<close> and byte \<open>15 - i\<close> is
  \<^verbatim>\<open>(lenC >> (i * 8)) & 0xff\<close>, for \<open>i\<close> from 0 to 7.
\<close>

definition ghash_final_block :: "nat \<Rightarrow> nat \<Rightarrow> bytes" where
  "ghash_final_block aadLength ctLength =
     (let lenA = int aadLength * 8;
          lenC = int ctLength * 8;
          finalBlock = zeros 16;
          finalBlock1 = fold (\<lambda>i fb. fb[7 - i := low_byte (js_sar lenA (i * 8))]) [0..<8] finalBlock;
          finalBlock2 = fold (\<lambda>i fb. fb[15 - i := low_byte (js_sar lenC (i * 8))]) [0..<8] finalBlock1
      in finalBlock2)"

definition ghash :: "bytes \<Rightarrow> bytes \<Rightarrow> bytes \<Rightarrow> bytes" where
  "ghash H associatedData ciphertext =
     (let Y1 = ghash_blocks H associatedData (zeros 16);
          Y2 = ghash_blocks H ciphertext Y1;
          finalBlock = ghash_final_block (length associatedData) (length ciphertext);
          Y3 = xor_bytes Y2 finalBlock
      in galoisMultiply Y3 H)"

record gcm_mode =
  gcm_key :: bytes
  gcm_iv :: bytes
  gcm_H :: bytes
  gcm_J0 :: bytes

definition GCM_new :: "cipher \<Rightarrow> bytes \<Rightarrow> bytes \<Rightarrow> error + gcm_mode" where
  "GCM_new C key iv =
     ebind (AES_new key) (\<lambda>k.
     ebind (AES_encrypt C k (zeros 16)) (\<lambda>H.
       let J0 = (if length iv = 12 then (write_at (zeros 16) iv 0)[15 := 1]
                 else ghash H [] iv)
       in Inr \<lparr>gcm_key = k, gcm_iv = iv, gcm_H = H, gcm_J0 = J0\<rparr>))"

definition GCM_tag :: "cipher \<Rightarrow> gcm_mode \<Rightarrow> bytes \<Rightarrow> bytes \<Rightarrow> error + bytes" where
  "GCM_tag C m associatedData ciphertext =
     (let ghashResult = ghash (gcm_H m) associatedData ciphertext
      in ebind (AES_encrypt C (gcm_key m) (gcm_J0 m)) (\<lambda>S. Inr (xor16 ghashResult S)))"

definition GCM_encrypt :: "cipher \<Rightarrow> gcm_mode \<Rightarrow> bytes \<Rightarrow> bytes \<Rightarrow> error + (bytes \<times> bytes)" where
  "GCM_encrypt C m plaintext associatedData =
     ebind (Counter_new (gcm_J0 m)) (\<lambda>c.
     ebind (CTR_with_counter (gcm_key m) (increment c)) (\<lambda>ctr.
     ebind (CTR_encrypt C ctr plaintext) (\<lambda>(ciphertext, ctr').
     ebind (GCM_tag C m associatedData ciphertext) (\<lambda>tag.
       Inr (ciphertext, tag)))))"

definition GCM_decrypt :: "cipher \<Rightarrow> gcm_mode \<Rightarrow> bytes \<Rightarrow> bytes \<Rightarrow> bytes \<Rightarrow> error + bytes option" where
  "GCM_decrypt C m ciphertext tag associatedData =
     (if length tag \<noteq> 16 then Inr None
      else
        ebind (GCM_tag C m associatedData ciphertext) (\<lambda>expectedTag.
        if tags_differ 16 tag expectedTag \<noteq> 0 then Inr None
        else
          ebind (Counter_new (gcm_J0 m)) (\<lambda>c.
          ebind (CTR_with_counter (gcm_key m) (increment c)) (\<lambda>ctr.
          ebind (CTR_encrypt C ctr ciphertext) (\<lambda>(plaintext, ctr').
            Inr (Some plaintext))))))"

section \<open>CBC-MAC\<close>

text \<open>
  \<^verbatim>\<open>_pad\<close> of CBC-MAC: the message in a zero buffer that ends at the next multiple of 16
  after its length, and 0x80 right after the message.
\<close>

definition cbcmac_pad :: "bytes \<Rightarrow> bytes" where
  "cbcmac_pad message =
     (let remainder = length message mod 16;
          paddedSize = length message - remainder + 16;
          padded = write_at (zeros paddedSize) message 0
      in padded[length message := 0x80])"

text \<open>
  \<^verbatim>\<open>generateTag\<close> of CBC-MAC. The loop runs \<open>i\<close> over 0, 16, 32, ... below the length of
  \<open>dataToProcess\<close>; \<open>k\<close> is \<open>i / 16\<close>. The key is all an instance holds.
\<close>

definition CBC_MAC_generateTag :: "cipher \<Rightarrow> bytes \<Rightarrow> bytes \<Rightarrow> nat \<Rightarrow> error + bytes" where
  "CBC_MAC_generateTag C key message tagSize =
     (if tagSize > 16 then Inl TagSizeTooLarge
      else
        let dataToProcess =
              (if length message mod 16 = 0 \<and> length message > 0 then message
               else cbcmac_pad message)
        in ebind (efold (\<lambda>k lastCipherBlock.
                    let block = subarray dataToProcess (16 * k) (16 * k + 16);
                        xoredBlock = xor_bytes lastCipherBlock block
                    in AES_encrypt C key xoredBlock)
                  [0..<(length dataToProcess + 15) div 16] (zeros 16))
             (\<lambda>lastCipherBlock. Inr (subarray lastCipherBlock 0 tagSize)))"

definition CBC_MAC_verifyTag :: "cipher \<Rightarrow> bytes \<Rightarrow> bytes \<Rightarrow> bytes \<Rightarrow> error + bool" where
  "CBC_MAC_verifyTag C key message tag =
     ebind (CBC_MAC_generateTag C key message (length tag)) (\<lambda>expectedTag.
       if length tag \<noteq> length expectedTag then Inr False
       else Inr (tags_differ (length tag) tag expectedTag = 0))"

section \<open>CMAC\<close>

record cmac_mode =
  cmac_key :: bytes
  cmac_K1 :: bytes
  cmac_K2 :: bytes

definition generateSubkey :: "cipher \<Rightarrow> bytes \<Rightarrow> nat \<Rightarrow> error + bytes" where
  "generateSubkey C key index =
     ebind (AES_encrypt C key (zeros 16)) (\<lambda>L.
       let K1 = double L
       in if index = 2 then Inr (double K1) else Inr K1)"

definition CMAC_new :: "cipher \<Rightarrow> bytes \<Rightarrow> error + cmac_mode" where
  "CMAC_new C key =
     ebind (AES_new key) (\<lambda>k.
     ebind (generateSubkey C k 1) (\<lambda>K1.
     ebind (generateSubkey C k 2) (\<lambda>K2.
       Inr \<lparr>cmac_key = k, cmac_K1 = K1, cmac_K2 = K2\<rparr>)))"

text \<open>
  \<^verbatim>\<open>generateTag\<close> of CMAC. \<open>n\<close> is \<^verbatim>\<open>Math.ceil((message.length + 1) / 16) || 1\<close>.
\<close>

definition CMAC_generateTag :: "cipher \<Rightarrow> cmac_mode \<Rightarrow> bytes \<Rightarrow> nat \<Rightarrow> error + bytes" where
  "CMAC_generateTag C m message tagSize =
     (if tagSize > 16 then Inl TagSizeTooLarge
      else
        let c = (length message + 1 + 15) div 16;
            n = (if c = 0 then 1 else c);
            processedMessage0 = write_at (zeros (n * 16)) message 0;
            padding = (length message = 0 \<or> length message mod 16 \<noteq> 0);
            processedMessage =
              (if padding then processedMessage0[length message := 0x80] else processedMessage0);
            tail = subarray processedMessage (length processedMessage - 16)
                     (length processedMessage);
            lastBlock = (if padding then xor_bytes tail (cmac_K2 m) else xor_bytes tail (cmac_K1 m))
        in ebind (efold (\<lambda>i X.
                    let block = subarray processedMessage (i * 16) ((i + 1) * 16);
                        y = xor_bytes X block
                    in AES_encrypt C (cmac_key m) y)
                  [0..<n - 1] (zeros 16)) (\<lambda>X.
           let y = xor_bytes X lastBlock
           in ebind (AES_encrypt C (cmac_key m) y) (\<lambda>T. Inr (subarray T 0 tagSize))))"

definition CMAC_verifyTag :: "cipher \<Rightarrow> cmac_mode \<Rightarrow> bytes \<Rightarrow> bytes \<Rightarrow> error + bool" where
  "CMAC_verifyTag C m message tag =
     ebind (CMAC_generateTag C m message (length tag)) (\<lambda>expectedTag.
       if length tag \<noteq> length expectedTag then Inr False
       else Inr (tags_differ (length tag) tag expectedTag = 0))"

section \<open>CBC\<close>

record cbc_mode =
  cbc_key :: bytes
  lastCipherblock :: bytes

text \<open>
  The constructor checks the IV, when there is one, before it builds the \<^verbatim>\<open>AES\<close> object.
\<close>

definition CBC_new :: "bytes \<Rightarrow> bytes option \<Rightarrow> error + cbc_mode" where
  "CBC_new key iv =
     (case iv of
        Some v \<Rightarrow>
          if length v \<noteq> 16 then Inl InvalidIvSize
          else ebind (AES_new key) (\<lambda>k. Inr \<lparr>cbc_key = k, lastCipherblock = v\<rparr>)
      | None \<Rightarrow> ebind (AES_new key) (\<lambda>k. Inr \<lparr>cbc_key = k, lastCipherblock = zeros 16\<rparr>))"

text \<open>
  \<^verbatim>\<open>encrypt\<close>. \<^verbatim>\<open>plaintext.subarray(i, i + 16)\<close> is a view on the caller's buffer, not a
  copy, and \<^verbatim>\<open>block[j] ^= this.lastCipherblock[j]\<close> writes through it. The model therefore
  threads the contents of the caller's buffer through the loop and returns them next to
  the ciphertext: the result is (ciphertext, caller's plaintext buffer after the call,
  new state). \<open>k\<close> is \<open>i / 16\<close>.
\<close>

definition CBC_encrypt_step ::
  "cipher \<Rightarrow> nat \<Rightarrow> bytes \<times> bytes \<times> cbc_mode \<Rightarrow> error + (bytes \<times> bytes \<times> cbc_mode)" where
  "CBC_encrypt_step C k = (\<lambda>(buffer, ciphertext, st).
     let i = 16 * k;
         buffer' = write_at buffer (xor_bytes (subarray buffer i (i + 16)) (lastCipherblock st)) i;
         block = subarray buffer' i (i + 16)
     in ebind (AES_encrypt C (cbc_key st) block) (\<lambda>e.
        ebind (set_bytes ciphertext e (int i)) (\<lambda>ciphertext'.
          Inr (buffer', ciphertext', st\<lparr>lastCipherblock := e\<rparr>))))"

definition CBC_encrypt ::
  "cipher \<Rightarrow> cbc_mode \<Rightarrow> bytes \<Rightarrow> error + (bytes \<times> bytes \<times> cbc_mode)" where
  "CBC_encrypt C st plaintext =
     (if length plaintext mod 16 \<noteq> 0 then Inl InvalidPlaintextSize
      else ebind (efold (CBC_encrypt_step C) [0..<(length plaintext + 15) div 16]
                    (plaintext, zeros (length plaintext), st))
             (\<lambda>(buffer, ciphertext, st'). Inr (ciphertext, buffer, st')))"

text \<open>
  \<^verbatim>\<open>decrypt\<close> writes only into arrays of its own; afterwards \<^verbatim>\<open>lastCipherblock\<close> is the
  view on the last block of the caller's ciphertext.
\<close>

definition CBC_decrypt_step ::
  "cipher \<Rightarrow> bytes \<Rightarrow> nat \<Rightarrow> bytes \<times> cbc_mode \<Rightarrow> error + (bytes \<times> cbc_mode)" where
  "CBC_decrypt_step C ciphertext k = (\<lambda>(plaintext, st).
     let i = 16 * k;
         block = subarray ciphertext i (i + 16)
     in ebind (AES_decrypt C (cbc_key st) block) (\<lambda>d.
        let decryptedBlock = xor_bytes d (lastCipherblock st)
        in ebind (set_bytes plaintext decryptedBlock (int i)) (\<lambda>plaintext'.
             Inr (plaintext', st\<lparr>lastCipherblock := block\<rparr>))))"

definition CBC_decrypt :: "cipher \<Rightarrow> cbc_mode \<Rightarrow> bytes \<Rightarrow> error + (bytes \<times> cbc_mode)" where
  "CBC_decrypt C st ciphertext =
     (if length ciphertext mod 16 \<noteq> 0 then Inl InvalidCiphertextSize
      else efold (CBC_decrypt_step C ciphertext) [0..<(length ciphertext + 15) div 16]
             (zeros (length ciphertext), st))"

section \<open>OCB\<close>

text \<open>
  \<^verbatim>\<open>_ocb_process\<close> compares two arrays with \<^verbatim>\<open>===\<close>, which is identity of the objects, not
  equality of their contents. Where that matters an array is an object with an identity:
  the number of arrays allocated before it. The constructor takes the number of arrays
  allocated before \<^verbatim>\<open>L_star\<close>; \<^verbatim>\<open>_ocb_process\<close> takes the number \<open>h\<close> of arrays allocated
  when it creates \<^verbatim>\<open>authOffset\<close>, and counts on from there in the loop over the
  associated data, the only place where identities are compared.
\<close>

record u8array =
  ident :: nat
  bytes_of :: bytes

record ocb_mode =
  ocb_key :: bytes
  ocb_tagSize :: nat
  ocb_L_star :: u8array
  ocb_L_dollar :: bytes
  ocb_L_series :: "bytes list"

text \<open>
  The constructor; \<open>h\<close> is the number of arrays allocated before \<^verbatim>\<open>L_star\<close>, the result
  of \<^verbatim>\<open>aes.encrypt\<close>.
\<close>

definition OCB_new :: "cipher \<Rightarrow> bytes \<Rightarrow> nat \<Rightarrow> nat \<Rightarrow> error + ocb_mode" where
  "OCB_new C key tagSize h =
     (if tagSize < 8 \<or> tagSize > 16 then Inl InvalidTagSize
      else ebind (AES_new key) (\<lambda>k.
           ebind (AES_encrypt C k (zeros 16)) (\<lambda>Lstar.
             Inr \<lparr>ocb_key = k, ocb_tagSize = tagSize,
                  ocb_L_star = \<lparr>ident = h, bytes_of = Lstar\<rparr>,
                  ocb_L_dollar = double Lstar,
                  ocb_L_series = make_L_series Lstar\<rparr>)))"

definition shiftLeft :: "bytes \<Rightarrow> nat \<Rightarrow> bytes" where
  "shiftLeft bs bits =
     (let byteShift = bits div 8;
          bitShift = bits mod 8
      in if bitShift = 0
         then map (\<lambda>i. if i < length bs - byteShift then bs ! (i + byteShift) else 0)
                [0..<length bs]
         else
           let invBitShift = 8 - bitShift
           in map (\<lambda>i.
                 let high = (if i + byteShift < length bs
                             then push_bit bitShift (bs ! (i + byteShift)) else 0);
                     low = (if i + byteShift + 1 < length bs
                            then drop_bit invBitShift (bs ! (i + byteShift + 1)) else 0)
                 in high OR low) [0..<length bs])"

text \<open>
  \<^verbatim>\<open>_pad\<close> of OCB, called with blocks shorter than 16 bytes.
\<close>

definition ocb_pad :: "bytes \<Rightarrow> bytes" where
  "ocb_pad block = (write_at (zeros 16) block 0)[length block := 0x80]"

text \<open>
  One pass of the loop over the associated data, for the block that starts at \<open>16 * k\<close>.
  The state is the number of arrays allocated, \<^verbatim>\<open>authOffset\<close> and \<^verbatim>\<open>authChecksum\<close>.
  \<^verbatim>\<open>_double\<close> returns a new array each time it is called.
\<close>

definition ocb_aad_step ::
  "cipher \<Rightarrow> ocb_mode \<Rightarrow> bytes \<Rightarrow> nat \<Rightarrow> nat \<times> u8array \<times> bytes \<Rightarrow> error + (nat \<times> u8array \<times> bytes)" where
  "ocb_aad_step C m associatedData k = (\<lambda>(h, authOffset, authChecksum).
     let (arg, h1) =
           (if ident authOffset = ident (ocb_L_star m)
            then (\<lparr>ident = h, bytes_of = double (bytes_of (ocb_L_star m))\<rparr>, h + 1)
            else (authOffset, h));
         authOffset' = \<lparr>ident = h1, bytes_of = double (bytes_of arg)\<rparr>;
         h2 = h1 + 1;
         block = subarray associatedData (16 * k) (16 * k + 16)
     in ebind (AES_encrypt C (ocb_key m)
                 (xor_bytes (if length block = 16 then block else ocb_pad block)
                    (bytes_of authOffset'))) (\<lambda>processedBlock.
          Inr (h2, authOffset', xor_bytes authChecksum processedBlock)))"

text \<open>
  The state of the loop over the associated data after its first \<open>n\<close> passes; \<open>h\<close> is the
  number of arrays allocated when \<^verbatim>\<open>_ocb_process\<close> reaches the loop. \<^verbatim>\<open>authOffset\<close> starts as
  a new zero array. The offset XORed into block \<open>n\<close> (counted from 1) is \<^verbatim>\<open>authOffset\<close> of
  the state after \<open>n\<close> passes.
\<close>

definition ocb_aad_passes ::
  "cipher \<Rightarrow> ocb_mode \<Rightarrow> bytes \<Rightarrow> nat \<Rightarrow> nat \<Rightarrow> error + (nat \<times> u8array \<times> bytes)" where
  "ocb_aad_passes C m associatedData h n =
     efold (ocb_aad_step C m associatedData) [0..<n]
       (h + 1, \<lparr>ident = h, bytes_of = zeros 16\<rparr>, zeros 16)"

text \<open>
  One pass of the main loop for block \<open>i\<close> (from 1). A block shorter than 16 bytes is the
  last one, so the \<^verbatim>\<open>break\<close> after it ends the loop where it ends anyway. The state
  is \<^verbatim>\<open>output\<close>, \<^verbatim>\<open>mainChecksum\<close> and \<^verbatim>\<open>mainOffset\<close>. The writes into \<^verbatim>\<open>output\<close> are
  inside it.
\<close>

definition ocb_main_step ::
  "cipher \<Rightarrow> ocb_mode \<Rightarrow> bytes \<Rightarrow> bool \<Rightarrow> nat \<Rightarrow> bytes \<times> bytes \<times> bytes \<Rightarrow> error + (bytes \<times> bytes \<times> bytes)" where
  "ocb_main_step C m data isEncryption i = (\<lambda>(output, mainChecksum, mainOffset0).
     let mainOffset = xor_bytes mainOffset0 (ocb_L_series m ! ntz i);
         from = (i - 1) * 16;
         to = from + 16;
         block = subarray data from (min to (length data))
     in if length block < 16 then
          (let offsetStar = xor_bytes mainOffset (bytes_of (ocb_L_star m))
           in ebind (AES_encrypt C (ocb_key m) offsetStar) (\<lambda>pad.
              let plaintextPartial = xor_bytes block (subarray pad 0 (length block));
                  output1 = write_at output (if isEncryption then plaintextPartial else block) from;
                  output2 = (if \<not> isEncryption then write_at output1 plaintextPartial from
                             else output1);
                  mainChecksum' = xor_bytes mainChecksum
                                    (ocb_pad (if isEncryption then block else plaintextPartial))
              in Inr (output2, mainChecksum', mainOffset)))
        else if isEncryption then
          ebind (AES_encrypt C (ocb_key m) (xor_bytes block mainOffset)) (\<lambda>encrypted.
            Inr (write_at output (xor_bytes encrypted mainOffset) from,
                 xor_bytes mainChecksum block, mainOffset))
        else
          ebind (AES_decrypt C (ocb_key m) (xor_bytes block mainOffset))
            (\<lambda>decryptedIntermediate.
            let plaintextBlock = xor_bytes decryptedIntermediate mainOffset
            in Inr (write_at output plaintextBlock from,
                    xor_bytes mainChecksum plaintextBlock, mainOffset)))"

definition ocb_process ::
  "cipher \<Rightarrow> ocb_mode \<Rightarrow> nat \<Rightarrow> bytes \<Rightarrow> bytes \<Rightarrow> bytes \<Rightarrow> bool \<Rightarrow> error + (bytes \<times> bytes)" where
  "ocb_process C m h data nonce associatedData isEncryption =
     (if length nonce = 0 \<or> length nonce > 15 then Inl InvalidNonceSize
      else
        let tmp0 = (zeros 16)[0 := of_nat (ocb_tagSize m * 8 * 2)];
            tmp1 = write_at tmp0 nonce (16 - length nonce);
            tmp = tmp1[15 - length nonce := tmp1 ! (15 - length nonce) OR 1]
        in ebind (AES_encrypt C (ocb_key m) tmp) (\<lambda>ktop.
           let stretch0 = write_at (zeros 24) ktop 0;
               stretch = write_at stretch0 (xor_bytes (subarray ktop 0 8) (subarray ktop 1 9)) 16;
               bottom = unat (tmp ! 15 AND 0x3f);
               initialOffset = subarray (shiftLeft stretch bottom) 0 16
           in ebind (ocb_aad_passes C m associatedData h
                       ((length associatedData + 15) div 16)) (\<lambda>(h', authOffset, authChecksum).
              ebind (efold (ocb_main_step C m data isEncryption)
                       [1..<(length data + 15) div 16 + 1]
                       (zeros (length data), zeros 16, initialOffset))
                (\<lambda>(output, mainChecksum, mainOffset).
              let finalOffset = xor_bytes mainOffset (ocb_L_dollar m)
              in ebind (AES_encrypt C (ocb_key m) (xor_bytes mainChecksum finalOffset))
                   (\<lambda>finalChecksum.
                 let tag = xor_bytes finalChecksum authChecksum
                 in Inr (output, subarray tag 0 (ocb_tagSize m)))))))"

definition OCB_encrypt ::
  "cipher \<Rightarrow> ocb_mode \<Rightarrow> nat \<Rightarrow> bytes \<Rightarrow> bytes \<Rightarrow> bytes \<Rightarrow> error + (bytes \<times> bytes)" where
  "OCB_encrypt C m h plaintext nonce associatedData =
     ocb_process C m h plaintext nonce associatedData True"

definition OCB_decrypt ::
  "cipher \<Rightarrow> ocb_mode \<Rightarrow> nat \<Rightarrow> bytes \<Rightarrow> bytes \<Rightarrow> bytes \<Rightarrow> bytes \<Rightarrow> error + bytes option" where
  "OCB_decrypt C m h ciphertext tag nonce associatedData =
     (if length tag \<noteq> ocb_tagSize m then Inr None
      else ebind (ocb_process C m h ciphertext nonce associatedData False)
             (\<lambda>(output, calculatedTag).
                if tags_differ (ocb_tagSize m) tag calculatedTag \<noteq> 0 then Inr None
                else Inr (Some output)))"

section \<open>EAX\<close>

record eax_mode =
  eax_key :: bytes
  eax_tagSize :: nat

definition EAX_new :: "bytes \<Rightarrow> nat \<Rightarrow> error + eax_mode" where
  "EAX_new key tagSize =
     (if tagSize < 8 \<or> tagSize > 16 then Inl InvalidTagSize
      else ebind (AES_new key) (\<lambda>k. Inr \<lparr>eax_key = k, eax_tagSize = tagSize\<rparr>))"

text \<open>\<^verbatim>\<open>_omac\<close>: OMAC of the domain byte followed by the data.\<close>

definition omac :: "cipher \<Rightarrow> eax_mode \<Rightarrow> bytes \<Rightarrow> byte \<Rightarrow> error + bytes" where
  "omac C m data domain =
     ebind (AES_encrypt C (eax_key m) (zeros 16)) (\<lambda>L.
     let L_u = double L;
         L_u2 = double L_u;
         message = domain # data;
         numBlocks = (length message + 15) div 16
     in ebind (efold (\<lambda>i lastBlock.
                  let from = i * 16;
                      block = subarray message from (from + 16)
                  in AES_encrypt C (eax_key m) (xor_bytes lastBlock block))
                [0..<numBlocks - 1] (zeros 16)) (\<lambda>lastBlock.
        let finalBlock = subarray message ((numBlocks - 1) * 16) (length message);
            subkey = (if length finalBlock = 16 then L_u else L_u2);
            paddedFinalBlock =
              (if length finalBlock = 16 then finalBlock
               else (write_at (zeros 16) finalBlock 0)[length finalBlock := 0x80])
        in AES_encrypt C (eax_key m) (xor_bytes lastBlock (xor_bytes paddedFinalBlock subkey))))"

definition EAX_encrypt ::
  "cipher \<Rightarrow> eax_mode \<Rightarrow> bytes \<Rightarrow> bytes \<Rightarrow> bytes \<Rightarrow> error + (bytes \<times> bytes)" where
  "EAX_encrypt C m plaintext nonce associatedData =
     ebind (omac C m nonce 0) (\<lambda>nonceMac.
     ebind (CTR_new (eax_key m) nonceMac) (\<lambda>ctr.
     ebind (CTR_encrypt C ctr plaintext) (\<lambda>(ciphertext, ctr').
     ebind (omac C m associatedData 1) (\<lambda>associatedDataMac.
     ebind (omac C m ciphertext 2) (\<lambda>ciphertextMac.
       let tag = xor_bytes (xor_bytes nonceMac ciphertextMac) associatedDataMac
       in Inr (ciphertext, subarray tag 0 (eax_tagSize m)))))))"

definition EAX_decrypt ::
  "cipher \<Rightarrow> eax_mode \<Rightarrow> bytes \<Rightarrow> bytes \<Rightarrow> bytes \<Rightarrow> bytes \<Rightarrow> error + bytes option" where
  "EAX_decrypt C m ciphertext tag nonce associatedData =
     (if length tag \<noteq> eax_tagSize m then Inr None
      else
        ebind (omac C m nonce 0) (\<lambda>nonceMac.
        ebind (omac C m associatedData 1) (\<lambda>associatedDataMac.
        ebind (omac C m ciphertext 2) (\<lambda>ciphertextMac.
          let expectedTag = xor_bytes (xor_bytes nonceMac ciphertextMac) associatedDataMac
          in if tags_differ (eax_tagSize m) tag expectedTag \<noteq> 0 then Inr None
             else
               ebind (CTR_new (eax_key m) nonceMac) (\<lambda>ctr.
               ebind (CTR_encrypt C ctr ciphertext) (\<lambda>(plaintext, ctr').
                 Inr (Some plaintext)))))))"

section \<open>CCM\<close>

record ccm_mode =
  ccm_key :: bytes
  ccm_tagSize :: nat
  ccm_L :: nat

text \<open>The constructor builds the \<^verbatim>\<open>AES\<close> object first, then checks the tag size and \<open>L\<close>.\<close>

definition CCM_new :: "bytes \<Rightarrow> nat \<Rightarrow> nat \<Rightarrow> error + ccm_mode" where
  "CCM_new key tagSize L =
     ebind (AES_new key) (\<lambda>k.
       if tagSize < 4 \<or> tagSize > 16 \<or> tagSize mod 2 \<noteq> 0 then Inl InvalidTagSize
       else if L < 2 \<or> L > 8 then Inl InvalidL
       else Inr \<lparr>ccm_key = k, ccm_tagSize = tagSize, ccm_L = L\<rparr>)"

text \<open>
  The loops that write a number into the last \<open>L\<close> bytes of a block:
  \<^verbatim>\<open>b[15 - j] = (v >> (j * 8)) & 0xff\<close> for \<open>j\<close> below \<open>L\<close>.
\<close>

definition write_counter :: "nat \<Rightarrow> int \<Rightarrow> bytes \<Rightarrow> bytes" where
  "write_counter L v b = fold (\<lambda>j b. b[15 - j := low_byte (js_sar v (j * 8))]) [0..<L] b"

definition formatAAD :: "bytes \<Rightarrow> error + bytes" where
  "formatAAD aad =
     (let aadLen = int (length aad)
      in ebind
           (if aadLen < 65280
            then Inr [low_byte (js_sar aadLen 8), low_byte aadLen]
            else if aadLen \<le> 0xffffffff
            then Inr [0xff, 0xfe, low_byte (js_sar aadLen 24), low_byte (js_sar aadLen 16),
                      low_byte (js_sar aadLen 8), low_byte aadLen]
            else Inl AadTooLarge) (\<lambda>lenBlock.
         let totalLen = length lenBlock + length aad;
             paddedLen = (totalLen + 15) div 16 * 16;
             result0 = write_at (zeros paddedLen) lenBlock 0
         in Inr (write_at result0 aad (length lenBlock))))"

definition ccm_cbcMac :: "cipher \<Rightarrow> ccm_mode \<Rightarrow> bytes \<Rightarrow> bytes \<Rightarrow> bytes \<Rightarrow> error + bytes" where
  "ccm_cbcMac C m payload iv associatedData =
     (let hasAAD = (length associatedData > 0);
          flags = (if hasAAD then 64 else 0) OR ((ccm_tagSize m - 2) div 2 * 8) OR (ccm_L m - 1);
          B0a = (zeros 16)[0 := of_nat flags]
      in ebind (set_bytes B0a iv 1) (\<lambda>B0b.
         let B0 = write_counter (ccm_L m) (int (length payload)) B0b
         in ebind (AES_encrypt C (ccm_key m) B0) (\<lambda>lastBlock0.
            ebind (if hasAAD
                   then ebind (formatAAD associatedData) (\<lambda>formattedAAD.
                          efold (\<lambda>k lastBlock.
                             let block = subarray formattedAAD (16 * k) (16 * k + 16)
                             in AES_encrypt C (ccm_key m) (xor16 lastBlock block))
                           [0..<(length formattedAAD + 15) div 16] lastBlock0)
                   else Inr lastBlock0) (\<lambda>lastBlock1.
            efold (\<lambda>k lastBlock.
               let block = write_at (zeros 16) (subarray payload (16 * k) (16 * k + 16)) 0
               in AES_encrypt C (ccm_key m) (xor16 lastBlock block))
             [0..<(length payload + 15) div 16] lastBlock1))))"

definition computeS0 :: "cipher \<Rightarrow> ccm_mode \<Rightarrow> bytes \<Rightarrow> error + bytes" where
  "computeS0 C m iv =
     (let A0a = (zeros 16)[0 := of_nat (ccm_L m - 1)]
      in ebind (set_bytes A0a iv 1) (\<lambda>A0. AES_encrypt C (ccm_key m) A0))"

definition xorMac :: "ccm_mode \<Rightarrow> bytes \<Rightarrow> bytes \<Rightarrow> bytes" where
  "xorMac m mac s0 = map (\<lambda>i. rd mac i XOR rd s0 i) [0..<ccm_tagSize m]"

text \<open>
  \<^verbatim>\<open>_ctrProcess\<close>: for block \<open>i\<close> from 1, the counter block with \<open>i\<close> in its last \<open>L\<close>
  bytes is encrypted and XORed into the bytes of the block that exist.
\<close>

definition ccm_ctrProcess :: "cipher \<Rightarrow> ccm_mode \<Rightarrow> bytes \<Rightarrow> bytes \<Rightarrow> error + bytes" where
  "ccm_ctrProcess C m data iv =
     (let counterBlock0 = (zeros 16)[0 := of_nat (ccm_L m - 1)]
      in ebind (set_bytes counterBlock0 iv 1) (\<lambda>counterBlock1.
         ebind (efold (\<lambda>i (processedData, counterBlock).
                  let counterBlock' = write_counter (ccm_L m) (int i) counterBlock
                  in ebind (AES_encrypt C (ccm_key m) counterBlock') (\<lambda>keyStreamBlock.
                     let offset = (i - 1) * 16;
                         chunk = subarray processedData offset (offset + 16)
                     in Inr (write_at processedData (xor_bytes chunk keyStreamBlock) offset,
                             counterBlock')))
                [1..<(length data + 15) div 16 + 1] (data, counterBlock1))
           (\<lambda>(processedData, counterBlock). Inr processedData)))"

definition CCM_encrypt ::
  "cipher \<Rightarrow> ccm_mode \<Rightarrow> bytes \<Rightarrow> bytes \<Rightarrow> bytes \<Rightarrow> error + (bytes \<times> bytes)" where
  "CCM_encrypt C m plaintext iv associatedData =
     (if int (length iv) \<noteq> 15 - int (ccm_L m) then Inl InvalidIvSize
      else
        ebind (ccm_cbcMac C m plaintext iv associatedData) (\<lambda>cbcMac.
        ebind (ccm_ctrProcess C m plaintext iv) (\<lambda>ciphertext.
        ebind (computeS0 C m iv) (\<lambda>s0.
          Inr (ciphertext, xorMac m cbcMac s0)))))"

definition CCM_decrypt ::
  "cipher \<Rightarrow> ccm_mode \<Rightarrow> bytes \<Rightarrow> bytes \<Rightarrow> bytes \<Rightarrow> bytes \<Rightarrow> error + bytes option" where
  "CCM_decrypt C m ciphertext iv tag associatedData =
     (if length tag \<noteq> ccm_tagSize m then Inr None
      else if int (length iv) \<noteq> 15 - int (ccm_L m) then Inl InvalidIvSize
      else
        ebind (ccm_ctrProcess C m ciphertext iv) (\<lambda>plaintext.
        ebind (ccm_cbcMac C m plaintext iv associatedData) (\<lambda>calculatedMac.
        ebind (computeS0 C m iv) (\<lambda>s0.
          let expectedTag = xorMac m calculatedMac s0
          in if tags_differ (ccm_tagSize m) tag expectedTag \<noteq> 0 then Inr None
             else Inr (Some plaintext)))))"

section \<open>CWC\<close>

record cwc_mode =
  cwc_masterKey :: bytes

definition CWC_new :: "bytes \<Rightarrow> error + cwc_mode" where
  "CWC_new key =
     (if length key \<noteq> 16 \<and> length key \<noteq> 32 then Inl InvalidKeySize
      else ebind (AES_new key) (\<lambda>k. Inr \<lparr>cwc_masterKey = k\<rparr>))"

text \<open>
  \<^verbatim>\<open>polyvalMultiply\<close> of CWC and of GCM-SIV: the loop of \<^verbatim>\<open>galoisMultiply\<close>, statement
  for statement.
\<close>

definition polyvalMultiply :: "bytes \<Rightarrow> bytes \<Rightarrow> bytes" where
  "polyvalMultiply x y = fst (fold (gm_step x) [0..<128] (zeros 16, y))"

definition padToBlockSize :: "bytes \<Rightarrow> bytes" where
  "padToBlockSize data =
     (let remainder = length data mod 16
      in if remainder = 0 then data
         else write_at (zeros (length data + (16 - remainder))) data 0)"

text \<open>
  \<^verbatim>\<open>createLengthBlock\<close>: the two bit lengths as 64-bit little-endian numbers. CWC
  divides by 256 in a loop, GCM-SIV calls \<^verbatim>\<open>setBigUint64\<close>; for lengths that are exact
  numbers the bytes are the same.
\<close>

fun le_bytes :: "nat \<Rightarrow> nat \<Rightarrow> bytes" where
  "le_bytes 0 n = []"
| "le_bytes (Suc k) n = of_nat n # le_bytes k (n div 256)"

definition createLengthBlock :: "nat \<Rightarrow> nat \<Rightarrow> bytes" where
  "createLengthBlock aadLen textLen = le_bytes 8 (aadLen * 8) @ le_bytes 8 (textLen * 8)"

text \<open>
  \<^verbatim>\<open>hash\<close> of CWC and \<^verbatim>\<open>polyval\<close> of GCM-SIV: over the padded associated data, the
  padded text and the length block, \<^verbatim>\<open>s[j] ^= block[j]\<close> for \<open>j\<close> below 16 and then
  \<^verbatim>\<open>s = polyvalMultiply(s, authKey)\<close>.
\<close>

definition polyval_blocks :: "bytes \<Rightarrow> bytes \<Rightarrow> bytes \<Rightarrow> bytes" where
  "polyval_blocks authKey data s0 =
     fold (\<lambda>k s. polyvalMultiply (xor16 s (subarray data (16 * k) (16 * k + 16))) authKey)
       [0..<(length data + 15) div 16] s0"

definition polyval :: "bytes \<Rightarrow> bytes \<Rightarrow> bytes \<Rightarrow> bytes" where
  "polyval authKey associatedData text =
     (let aadPadded = padToBlockSize associatedData;
          textPadded = padToBlockSize text;
          lengthBlock = createLengthBlock (length associatedData) (length text)
      in fold (polyval_blocks authKey) [aadPadded, textPadded, lengthBlock] (zeros 16))"

definition cwc_tag :: "cipher \<Rightarrow> cwc_mode \<Rightarrow> bytes \<Rightarrow> bytes \<Rightarrow> bytes \<Rightarrow> error + bytes" where
  "cwc_tag C m nonce associatedData ciphertext =
     ebind (AES_encrypt C (cwc_masterKey m) (zeros 16)) (\<lambda>hashKey.
     let hashResult = polyval hashKey associatedData ciphertext
     in ebind (set_bytes (zeros 16) nonce 0) (\<lambda>nonceBlock.
        ebind (AES_encrypt C (cwc_masterKey m) nonceBlock) (\<lambda>encryptedNonce.
          Inr (xor16 hashResult encryptedNonce))))"

definition cwc_ctr :: "cipher \<Rightarrow> cwc_mode \<Rightarrow> bytes \<Rightarrow> bytes \<Rightarrow> error + bytes" where
  "cwc_ctr C m nonce data =
     ebind (set_bytes (zeros 16) nonce 0) (\<lambda>c0.
     let initialCounter = c0[15 := 1]
     in ebind (Counter_new initialCounter) (\<lambda>c.
        ebind (CTR_with_counter (cwc_masterKey m) c) (\<lambda>ctr.
        ebind (CTR_encrypt C ctr data) (\<lambda>(out, ctr'). Inr out))))"

definition CWC_encrypt ::
  "cipher \<Rightarrow> cwc_mode \<Rightarrow> bytes \<Rightarrow> bytes \<Rightarrow> bytes \<Rightarrow> error + (bytes \<times> bytes)" where
  "CWC_encrypt C m plaintext nonce associatedData =
     (if length nonce \<noteq> 12 then Inl InvalidNonceSize
      else
        ebind (cwc_ctr C m nonce plaintext) (\<lambda>ciphertext.
        ebind (cwc_tag C m nonce associatedData ciphertext) (\<lambda>tag.
          Inr (ciphertext, tag))))"

definition CWC_decrypt ::
  "cipher \<Rightarrow> cwc_mode \<Rightarrow> bytes \<Rightarrow> bytes \<Rightarrow> bytes \<Rightarrow> bytes \<Rightarrow> error + bytes option" where
  "CWC_decrypt C m ciphertext tag nonce associatedData =
     (if length nonce \<noteq> 12 then Inl InvalidNonceSize
      else if length tag \<noteq> 16 then Inr None
      else
        ebind (cwc_tag C m nonce associatedData ciphertext) (\<lambda>expectedTag.
        if tags_differ 16 tag expectedTag \<noteq> 0 then Inr None
        else ebind (cwc_ctr C m nonce ciphertext) (\<lambda>plaintext. Inr (Some plaintext))))"

section \<open>GCM-SIV\<close>

record gcm_siv_mode =
  gs_masterKey :: bytes

definition GCM_SIV_new :: "bytes \<Rightarrow> error + gcm_siv_mode" where
  "GCM_SIV_new key =
     (if length key \<noteq> 16 \<and> length key \<noteq> 32 then Inl InvalidKeySize
      else Inr \<lparr>gs_masterKey = key\<rparr>)"

text \<open>
  \<^verbatim>\<open>deriveKeys\<close>: 4 or 6 blocks, each the nonce behind a 32-bit little-endian counter,
  are encrypted and the first 8 bytes of each result collected.
\<close>

definition deriveKeys :: "cipher \<Rightarrow> gcm_siv_mode \<Rightarrow> bytes \<Rightarrow> error + (bytes \<times> bytes)" where
  "deriveKeys C m nonce =
     ebind (AES_new (gs_masterKey m)) (\<lambda>k.
     let keyLen = length (gs_masterKey m)
     in ebind (set_bytes (zeros 16) nonce 4) (\<lambda>block0.
        let numBlocks = (if keyLen = 16 then 4 else 6) :: nat
        in ebind (efold (\<lambda>i (block, keyMaterial).
                    let block' = block[0 := low_byte (int i), 1 := low_byte (js_sar (int i) 8),
                                       2 := low_byte (js_sar (int i) 16),
                                       3 := low_byte (js_sar (int i) 24)]
                    in ebind (AES_encrypt C k block') (\<lambda>encryptedBlock.
                       ebind (set_bytes keyMaterial (subarray encryptedBlock 0 8) (int (i * 8)))
                         (\<lambda>keyMaterial'. Inr (block', keyMaterial'))))
                  [0..<numBlocks] (block0, zeros (if keyLen = 16 then 32 else 48)))
             (\<lambda>(block, keyMaterial).
                Inr (subarray keyMaterial 0 16, subarray keyMaterial 16 (length keyMaterial)))))"

text \<open>The tag of \<^verbatim>\<open>encrypt\<close>, recomputed the same way by \<^verbatim>\<open>decrypt\<close>.\<close>

definition gcm_siv_tag ::
  "cipher \<Rightarrow> bytes \<Rightarrow> bytes \<Rightarrow> bytes \<Rightarrow> bytes \<Rightarrow> bytes \<Rightarrow> error + bytes" where
  "gcm_siv_tag C authKey encKey nonce associatedData plaintext =
     (let polyvalResult = polyval authKey associatedData plaintext
      in ebind (set_bytes (zeros 16) nonce 0) (\<lambda>t0.
         let t1 = map (\<lambda>i. if i < 12 then rd t0 i XOR rd polyvalResult i
                            else rd polyvalResult i) [0..<16];
             tagMaterial = t1[15 := rd t1 15 AND 0x7f]
         in ebind (AES_new encKey) (\<lambda>ek. AES_encrypt C ek tagMaterial)))"

definition gcm_siv_ctr :: "cipher \<Rightarrow> bytes \<Rightarrow> bytes \<Rightarrow> bytes \<Rightarrow> error + bytes" where
  "gcm_siv_ctr C encKey tag data =
     (let initialCounter = tag[15 := rd tag 15 OR 0x80]
      in ebind (Counter_new initialCounter) (\<lambda>c.
         ebind (CTR_with_counter encKey c) (\<lambda>ctr.
         ebind (CTR_encrypt C ctr data) (\<lambda>(out, ctr'). Inr out))))"

definition GCM_SIV_encrypt ::
  "cipher \<Rightarrow> gcm_siv_mode \<Rightarrow> bytes \<Rightarrow> bytes \<Rightarrow> bytes \<Rightarrow> error + (bytes \<times> bytes)" where
  "GCM_SIV_encrypt C m plaintext nonce associatedData =
     (if length nonce \<noteq> 12 then Inl InvalidNonceSize
      else
        ebind (deriveKeys C m nonce) (\<lambda>(authKey, encKey).
        ebind (gcm_siv_tag C authKey encKey nonce associatedData plaintext) (\<lambda>tag.
        ebind (gcm_siv_ctr C encKey tag plaintext) (\<lambda>ciphertext.
          Inr (ciphertext, tag)))))"

definition GCM_SIV_decrypt ::
  "cipher \<Rightarrow> gcm_siv_mode \<Rightarrow> bytes \<Rightarrow> bytes \<Rightarrow> bytes \<Rightarrow> bytes \<Rightarrow> error + bytes option" where
  "GCM_SIV_decrypt C m ciphertext tag nonce associatedData =
     (if length nonce \<noteq> 12 then Inl InvalidNonceSize
      else if length tag \<noteq> 16 then Inr None
      else
        ebind (deriveKeys C m nonce) (\<lambda>(authKey, encKey).
        ebind (gcm_siv_ctr C encKey tag ciphertext) (\<lambda>plaintext.
        ebind (gcm_siv_tag C authKey encKey nonce associatedData plaintext) (\<lambda>expectedTag.
          if tags_differ 16 tag expectedTag \<noteq> 0 then Inr None
          else Inr (Some plaintext)))))"

section \<open>HybridCTR\<close>

record hybrid_mode =
  hy_key :: bytes
  hy_tagSize :: nat

definition HybridCTR_new :: "bytes \<Rightarrow> nat \<Rightarrow> error + hybrid_mode" where
  "HybridCTR_new key tagSize =
     (if length key \<notin> {16, 24, 32} then Inl InvalidKeySize
      else if tagSize < 8 \<or> tagSize > 16 then Inl InvalidTagSize
      else ebind (AES_new key) (\<lambda>k. Inr \<lparr>hy_key = k, hy_tagSize = tagSize\<rparr>))"

text \<open>
  The loop shared by \<^verbatim>\<open>_generateSyntheticNonce\<close> and \<^verbatim>\<open>_createTag\<close>: every 16-byte chunk
  of the data, zero-padded, is encrypted and XORed into the accumulator.
\<close>

definition fold_chunks :: "cipher \<Rightarrow> hybrid_mode \<Rightarrow> bytes \<Rightarrow> bytes \<Rightarrow> error + bytes" where
  "fold_chunks C m data acc0 =
     efold (\<lambda>k acc.
        let block = subarray data (16 * k) (min (16 * k + 16) (length data));
            paddedBlock = write_at (zeros 16) block 0
        in ebind (AES_encrypt C (hy_key m) paddedBlock) (\<lambda>e. Inr (xor_bytes acc e)))
      [0..<(length data + 15) div 16] acc0"

definition generateSyntheticNonce ::
  "cipher \<Rightarrow> hybrid_mode \<Rightarrow> bytes \<Rightarrow> bytes \<Rightarrow> bytes \<Rightarrow> error + bytes" where
  "generateSyntheticNonce C m plaintext associatedData tweak =
     fold_chunks C m (plaintext @ associatedData @ tweak) (zeros 16)"

definition createTag ::
  "cipher \<Rightarrow> hybrid_mode \<Rightarrow> bytes \<Rightarrow> bytes \<Rightarrow> bytes \<Rightarrow> bytes \<Rightarrow> error + bytes" where
  "createTag C m plaintext nonce associatedData tweak =
     ebind (efold (\<lambda>component tagBase.
              let len = int (length component);
                  lenBytes = (zeros 16)[15 := low_byte len, 14 := low_byte (js_sar len 8),
                                        13 := low_byte (js_sar len 16),
                                        12 := low_byte (js_sar len 24)]
              in ebind (AES_encrypt C (hy_key m) lenBytes) (\<lambda>e.
                 fold_chunks C m component (xor_bytes tagBase e)))
            [plaintext, nonce, associatedData, tweak] (zeros 16)) (\<lambda>tagBase.
     ebind (AES_encrypt C (hy_key m) tagBase) (\<lambda>finalTag.
       Inr (subarray finalTag 0 (hy_tagSize m))))"

definition HybridCTR_encrypt ::
  "cipher \<Rightarrow> hybrid_mode \<Rightarrow> bytes \<Rightarrow> bytes option \<Rightarrow> bytes \<Rightarrow> bytes
   \<Rightarrow> error + (bytes \<times> bytes \<times> bytes)" where
  "HybridCTR_encrypt C m plaintext nonce associatedData tweak =
     ebind (case nonce of Some n \<Rightarrow> Inr n
            | None \<Rightarrow> generateSyntheticNonce C m plaintext associatedData tweak)
       (\<lambda>actualNonce.
     let tweakedNonce = xor_bytes actualNonce tweak
     in ebind (CTR_new (hy_key m) tweakedNonce) (\<lambda>ctr.
        ebind (CTR_encrypt C ctr plaintext) (\<lambda>(ciphertext, ctr').
        ebind (createTag C m plaintext actualNonce associatedData tweak) (\<lambda>tag.
          Inr (ciphertext, tag, actualNonce)))))"

definition HybridCTR_decrypt ::
  "cipher \<Rightarrow> hybrid_mode \<Rightarrow> bytes \<Rightarrow> bytes \<Rightarrow> bytes \<Rightarrow> bytes \<Rightarrow> bytes
   \<Rightarrow> error + bytes option" where
  "HybridCTR_decrypt C m ciphertext tag nonce associatedData tweak =
     (if length tag \<noteq> hy_tagSize m then Inr None
      else
        let tweakedNonce = xor_bytes nonce tweak
        in ebind (CTR_new (hy_key m) tweakedNonce) (\<lambda>ctr.
           ebind (CTR_encrypt C ctr ciphertext) (\<lambda>(plaintext, ctr').
           ebind (createTag C m plaintext nonce associatedData tweak) (\<lambda>expectedTag.
             if length tag \<noteq> length expectedTag then Inr None
             else if tags_differ (length tag) tag expectedTag \<noteq> 0 then Inr None
             else Inr (Some plaintext)))))"

section \<open>Big-endian numbers\<close>

text \<open>
  The value of a byte string read as a big-endian number, and the big-endian encoding of
  a number in \<open>n\<close> bytes. The Counter claims are stated with these.
\<close>

definition be_value :: "bytes \<Rightarrow> nat" where
  "be_value bs = foldl (\<lambda>a b. 256 * a + unat b) 0 bs"

fun be_bytes :: "nat \<Rightarrow> nat \<Rightarrow> bytes" where
  "be_bytes 0 v = []"
| "be_bytes (Suc n) v = be_bytes n (v div 256) @ [of_nat (v mod 256)]"

section \<open>CMAC on block-aligned messages, as the specification words it\<close>

text \<open>
  For a message whose length is a non-zero multiple of 16: the CBC-MAC chain from the zero
  block over the message's own \<open>length message div 16\<close> blocks, the last of them XORed
  with K1 before it is encrypted; the tag is the result cut to the tag size.
\<close>

definition cmac_aligned_spec :: "cipher \<Rightarrow> cmac_mode \<Rightarrow> bytes \<Rightarrow> nat \<Rightarrow> error + bytes" where
  "cmac_aligned_spec C m message tagSize =
     (let k = length message div 16
      in ebind (efold (\<lambda>i X.
                  let block = subarray message (i * 16) ((i + 1) * 16);
                      block' = (if i = k - 1 then xor_bytes block (cmac_K1 m) else block)
                  in AES_encrypt C (cmac_key m) (xor_bytes X block'))
                [0..<k] (zeros 16))
           (\<lambda>T. Inr (subarray T 0 tagSize)))"

section \<open>The PMAC offset, as the specification words it\<close>

text \<open>
  The offset of block \<open>i\<close> (from 1): the XOR of \<open>L_series[ntz(j)]\<close> for \<open>j\<close> from 1 to \<open>i\<close>.
\<close>

definition pmac_offset :: "bytes list \<Rightarrow> nat \<Rightarrow> bytes" where
  "pmac_offset Ls i = fold (\<lambda>j acc. xor_bytes acc (Ls ! ntz j)) [1..<i + 1] (zeros 16)"

section \<open>A small block cipher for closed examples\<close>

text \<open>
  Closed examples need the two block functions at concrete values. \<open>demo_cipher\<close> is a
  keyed permutation of the 16-byte blocks: XOR with the key, a running sum over the
  bytes, a reversal and a second running sum, so that every output byte depends on every
  input byte. It stands in for the table computation in examples only; every general
  theorem below holds for every \<open>cipher\<close>.
\<close>

fun chain_add :: "byte \<Rightarrow> bytes \<Rightarrow> bytes" where
  "chain_add c [] = []"
| "chain_add c (x # xs) = (x + c) # chain_add (x + c) xs"

fun chain_sub :: "byte \<Rightarrow> bytes \<Rightarrow> bytes" where
  "chain_sub c [] = []"
| "chain_sub c (y # ys) = (y - c) # chain_sub y ys"

definition demo_cipher :: cipher where
  "demo_cipher = \<lparr>enc = (\<lambda>key block. chain_add 1 (rev (chain_add 1 (xor_bytes block key)))),
                  dec = (\<lambda>key block. xor_bytes (chain_sub 1 (rev (chain_sub 1 block))) key)\<rparr>"

definition demo_key :: bytes where
  "demo_key = [1, 2, 3, 4, 5, 6, 7, 8, 9, 10, 11, 12, 13, 14, 15, 16]"

text \<open>\<open>demo_L_star\<close> is the encryption of the zero block under \<open>demo_key\<close>.\<close>

definition demo_L_star :: bytes where
  "demo_L_star = [138, 3, 109, 201, 24, 91, 147, 193, 230, 3, 25, 41, 52, 59, 63, 65]"

definition demo_pmac_siv :: pmac_siv where
  "demo_pmac_siv = \<lparr>ps_key = demo_key, ps_tagSize = 8, ps_L_star = demo_L_star,
                     ps_L_series = make_L_series demo_L_star\<rparr>"

definition demo_iv :: bytes where
  "demo_iv = [125, 168, 163, 105, 246, 94, 180, 1, 95, 244, 245, 153, 32, 218, 38, 241]"

definition demo_cmac :: cmac_mode where
  "demo_cmac = \<lparr>cmac_key = demo_key, cmac_K1 = double demo_L_star,
                 cmac_K2 = double (double demo_L_star)\<rparr>"

text \<open>A 16-byte message for the examples.\<close>

definition demo_block :: bytes where
  "demo_block = [0, 17, 34, 51, 68, 85, 102, 119, 136, 153, 170, 187, 204, 221, 238, 255]"

definition demo_ocb :: ocb_mode where
  "demo_ocb = \<lparr>ocb_key = demo_key, ocb_tagSize = 16,
                ocb_L_star = \<lparr>ident = 0, bytes_of = demo_L_star\<rparr>,
                ocb_L_dollar = double demo_L_star,
                ocb_L_series = make_L_series demo_L_star\<rparr>"

text \<open>Instances of the AEAD modes for the examples.\<close>

definition demo_gcm :: gcm_mode where
  "demo_gcm = \<lparr>gcm_key = demo_key, gcm_iv = zeros 12, gcm_H = demo_L_star,
                gcm_J0 = (zeros 16)[15 := 1]\<rparr>"

definition demo_ccm :: ccm_mode where
  "demo_ccm = \<lparr>ccm_key = demo_key, ccm_tagSize = 16, ccm_L = 4\<rparr>"

definition demo_eax :: eax_mode where
  "demo_eax = \<lparr>eax_key = demo_key, eax_tagSize = 16\<rparr>"

definition demo_cwc :: cwc_mode where
  "demo_cwc = \<lparr>cwc_masterKey = demo_key\<rparr>"

definition demo_gcm_siv :: gcm_siv_mode where
  "demo_gcm_siv = \<lparr>gs_masterKey = demo_key\<rparr>"

definition demo_hybrid :: hybrid_mode where
  "demo_hybrid = \<lparr>hy_key = demo_key, hy_tagSize = 16\<rparr>"

section \<open>Basic facts\<close>

lemma ebind_Inl [simp]: "ebind (Inl e) f = Inl e"
  by (simp add: ebind_def)

lemma ebind_Inr [simp]: "ebind (Inr x) f = f x"
  by (simp add: ebind_def)

lemma ebind_eq_Inr:
  "ebind m f = Inr y \<longleftrightarrow> (\<exists>x. m = Inr x \<and> f x = Inr y)"
  by (cases m) simp_all

lemma length_zeros [simp]: "length (zeros n) = n"
  by (simp add: zeros_def)

lemma length_xor_bytes [simp]: "length (xor_bytes a b) = length a"
  by (induction a b rule: xor_bytes.induct) simp_all

lemma length_block16 [simp]: "length (block16 r) = 16"
  by (simp add: block16_def)

lemma AES_encrypt_16:
  "length b = 16 \<Longrightarrow> AES_encrypt C k b = Inr (block16 (enc C k b))"
  by (simp add: AES_encrypt_def)

lemma AES_encrypt_length: "AES_encrypt C k b = Inr r \<Longrightarrow> length r = 16"
  by (auto simp: AES_encrypt_def split: if_splits)

lemma xor_xor_cancel: "(p XOR k) XOR k = (p :: byte)"
  by (simp add: xor.assoc)

lemma xor_eq_zero_D: "(a :: byte) XOR b = 0 \<Longrightarrow> a = b"
proof -
  assume "a XOR b = 0"
  then have "(a XOR b) XOR b = 0 XOR b" by simp
  then show "a = b" by (simp add: xor.assoc)
qed

lemma xor_fixed_D: "(x :: byte) XOR d = x \<Longrightarrow> d = 0"
proof -
  assume "x XOR d = x"
  then have "x XOR (x XOR d) = x XOR x" by simp
  then show "d = 0" by (simp add: xor.assoc [symmetric])
qed

lemma length_double [simp]: "length (double b) = 16"
  by (simp add: double_def Let_def)

lemma length_write_at:
  "offset + length src \<le> length dst \<Longrightarrow> length (write_at dst src offset) = length dst"
  by (simp add: write_at_def)

lemma zeros_16: "zeros 16 = [0,0,0,0,0,0,0,0,0,0,0,0,0,0,0,0]"
  by (simp add: zeros_def eval_nat_numeral)

lemma double_zeros: "double (zeros 16) = zeros 16"
  by (simp add: double_def rd_def zeros_def Let_def list_eq_iff_nth_eq nth_append)

lemma xor_bytes_zeros_left: "length b = n \<Longrightarrow> xor_bytes (zeros n) b = b"
proof (induction b arbitrary: n)
  case Nil
  then show ?case by (simp add: zeros_def)
next
  case (Cons x xs)
  then obtain k where "n = Suc k" by (cases n) auto
  with Cons show ?case by (simp add: zeros_def)
qed

lemma xor_bytes_zeros_right: "xor_bytes a (zeros n) = a"
proof (induction a arbitrary: n)
  case Nil
  then show ?case by simp
next
  case (Cons x xs)
  show ?case
  proof (cases n)
    case 0
    have "xor_bytes xs [] = xs" using Cons [of 0] by (simp add: zeros_def)
    then show ?thesis using 0 by (simp add: zeros_def)
  next
    case (Suc k)
    then show ?thesis using Cons [of k] by (simp add: zeros_def)
  qed
qed

lemma upt_0_8: "[0..<8] = [0, 1, 2, 3, 4, 5, 6, 7]"
  by (simp add: upt_rec)

lemma list_update_Cons_numeral:
  "(x # xs)[numeral v := y] = x # xs[numeral v - 1 := y]"
  by (cases "numeral v :: nat") simp_all

lemma efold_append: "efold f (xs @ ys) s = ebind (efold f xs s) (efold f ys)"
  by (induction xs arbitrary: s) (simp_all add: ebind_def split: sum.splits)

lemma efold_cong_list:
  "(\<And>x s. x \<in> set xs \<Longrightarrow> f x s = g x s) \<Longrightarrow> efold f xs s = efold g xs s"
  by (induction xs arbitrary: s) (simp_all add: ebind_def split: sum.splits)

lemma write_at_zeros_prefix:
  "length a \<le> n \<Longrightarrow> write_at (zeros n) a 0 = a @ zeros (n - length a)"
  by (simp add: write_at_def zeros_def)

lemma double_16:
  "double [b0, b1, b2, b3, b4, b5, b6, b7, b8, b9, b10, b11, b12, b13, b14, b15] =
     (let doubled = [push_bit 1 b0 OR drop_bit 7 b1, push_bit 1 b1 OR drop_bit 7 b2,
                     push_bit 1 b2 OR drop_bit 7 b3, push_bit 1 b3 OR drop_bit 7 b4,
                     push_bit 1 b4 OR drop_bit 7 b5, push_bit 1 b5 OR drop_bit 7 b6,
                     push_bit 1 b6 OR drop_bit 7 b7, push_bit 1 b7 OR drop_bit 7 b8,
                     push_bit 1 b8 OR drop_bit 7 b9, push_bit 1 b9 OR drop_bit 7 b10,
                     push_bit 1 b10 OR drop_bit 7 b11, push_bit 1 b11 OR drop_bit 7 b12,
                     push_bit 1 b12 OR drop_bit 7 b13, push_bit 1 b13 OR drop_bit 7 b14,
                     push_bit 1 b14 OR drop_bit 7 b15]
      in if b0 AND 0x80 \<noteq> 0 then doubled @ [push_bit 1 b15 XOR 0x87]
         else doubled @ [push_bit 1 b15])"
  by (simp add: double_def rd_def Let_def upt_rec [of 0] upt_rec [of "Suc _"] upt_rec_numeral
        list_update_Cons_numeral)

lemma upt_0_1: "[0..<1] = [0]"
  by simp

section \<open>Counter\<close>

lemma be_value_snoc: "be_value (bs @ [b]) = 256 * be_value bs + unat b"
  by (simp add: be_value_def)

lemma be_value_Nil: "be_value [] = 0"
  by (simp add: be_value_def)

lemma be_value_bound: "be_value bs < 256 ^ length bs"
proof (induction bs rule: rev_induct)
  case Nil
  then show ?case by (simp add: be_value_Nil)
next
  case (snoc b bs)
  have "unat b < 256" using unsigned_less [of b] by simp
  with snoc show ?case by (simp add: be_value_snoc)
qed

lemma be_bytes_be_value: "be_bytes (length bs) (be_value bs) = bs"
proof (induction bs rule: rev_induct)
  case Nil
  then show ?case by simp
next
  case (snoc b bs)
  have "unat b < 256" using unsigned_less [of b] by simp
  then show ?case using snoc by (simp add: be_value_snoc)
qed

lemma length_be_bytes: "length (be_bytes n v) = n"
  by (induction n arbitrary: v) simp_all

lemma be_bytes_Suc_split:
  "r < 256 \<Longrightarrow> be_bytes (Suc k) (256 * w + r) = be_bytes k w @ [of_nat r]"
  by simp

lemma increment_loop_be:
  "k \<le> length c \<Longrightarrow>
   increment_loop k c = be_bytes k ((be_value (take k c) + 1) mod 256 ^ k) @ drop k c"
proof (induction k arbitrary: c)
  case 0
  then show ?case by simp
next
  case (Suc k)
  then have k: "k < length c" by simp
  define V where "V = be_value (take k c)"
  have tk: "take (Suc k) c = take k c @ [c ! k]"
    using k by (simp add: take_Suc_conv_app_nth)
  have val: "be_value (take (Suc k) c) = 256 * V + unat (c ! k)"
    by (simp add: tk be_value_snoc V_def)
  have Vlt: "V < 256 ^ k"
    using be_value_bound [of "take k c"] k by (simp add: V_def)
  have ub: "unat (c ! k) < 256" using unsigned_less [of "c ! k"] by simp
  show ?case
  proof (cases "c ! k = 255")
    case True
    have ih: "increment_loop k (c[k := 0]) = be_bytes k ((V + 1) mod 256 ^ k) @ drop k (c[k := 0])"
      using Suc.IH [of "c[k := 0]"] k by (simp add: V_def)
    have dr: "drop k (c[k := 0]) = 0 # drop (Suc k) c"
      using k by (simp add: Cons_nth_drop_Suc [symmetric])
    have "unat (c ! k) = 255" using True by simp
    then have "(be_value (take (Suc k) c) + 1) mod 256 ^ Suc k = (256 * (V + 1)) mod (256 * 256 ^ k)"
      by (simp add: val)
    also have "\<dots> = 256 * ((V + 1) mod 256 ^ k) + 0"
      using mult_mod_right [of 256 "V + 1" "256 ^ k"] by simp
    finally have v': "(be_value (take (Suc k) c) + 1) mod 256 ^ Suc k = 256 * ((V + 1) mod 256 ^ k) + 0" .
    have rhs: "be_bytes (Suc k) ((be_value (take (Suc k) c) + 1) mod 256 ^ Suc k)
                = be_bytes k ((V + 1) mod 256 ^ k) @ [0]"
      unfolding v' by (subst be_bytes_Suc_split) simp_all
    have "increment_loop (Suc k) c = increment_loop k (c[k := 0])"
      using True by simp
    also have "\<dots> = be_bytes k ((V + 1) mod 256 ^ k) @ 0 # drop (Suc k) c"
      by (simp only: ih dr)
    finally show ?thesis
      by (simp only: rhs append_assoc append_Cons append_Nil)
  next
    case False
    have "unat (c ! k) \<noteq> 255"
    proof
      assume "unat (c ! k) = 255"
      then have "(of_nat (unat (c ! k)) :: byte) = of_nat 255" by simp
      then have "c ! k = 255" by simp
      with False show False by simp
    qed
    with ub have lt: "unat (c ! k) + 1 < 256" by simp
    have small: "256 * V + (unat (c ! k) + 1) < 256 ^ Suc k"
      using Vlt lt by simp
    have upd: "c[k := c ! k + 1] = take k c @ (c ! k + 1) # drop (Suc k) c"
      using k by (simp add: upd_conv_take_nth_drop)
    have bb: "be_bytes k V = take k c"
      using be_bytes_be_value [of "take k c"] k by (simp add: V_def)
    have "(be_value (take (Suc k) c) + 1) mod 256 ^ Suc k = 256 * V + (unat (c ! k) + 1)"
      using small by (simp add: val)
    then have rhs: "be_bytes (Suc k) ((be_value (take (Suc k) c) + 1) mod 256 ^ Suc k)
                = take k c @ [c ! k + 1]"
      using be_bytes_Suc_split [OF lt, of k V] by (simp only: bb) simp
    have "increment_loop (Suc k) c = c[k := c ! k + 1]"
      using False by simp
    then show ?thesis
      by (simp only: rhs upd append_assoc append_Cons append_Nil)
  qed
qed

lemma length_increment_loop [simp]: "length (increment_loop k c) = length c"
  by (induction k arbitrary: c) simp_all

lemma length_increment [simp]: "length (increment c) = length c"
  by (simp add: increment_def)

lemma be_bytes_numeral:
  "be_bytes (numeral k) v = be_bytes (pred_numeral k) (v div 256) @ [of_nat (v mod 256)]"
proof -
  have e: "numeral k = Suc (pred_numeral k)" by (rule numeral_eq_Suc)
  show ?thesis by (simp only: e be_bytes.simps)
qed

text \<open>
  C10. For every 16-byte counter state, \<open>increment\<close> replaces the state with the
  big-endian encoding in 16 bytes of (value + 1) mod 2^128, where value is the
  big-endian number held before the call. At the all-0xFF state (the witness) the result
  is the all-zero state.
\<close>

theorem increment_big_endian:
  "length c = 16 \<Longrightarrow> increment c = be_bytes 16 ((be_value c + 1) mod 2 ^ 128)"
  using increment_loop_be [of 16 c] by (simp add: increment_def)

theorem increment_big_endian_witness:
  "length [255, 255, 255, 255, 255, 255, 255, 255, 255, 255, 255, 255, 255, 255, 255, 255 :: byte] = 16
   \<and> increment [255, 255, 255, 255, 255, 255, 255, 255, 255, 255, 255, 255, 255, 255, 255, 255]
       = [0, 0, 0, 0, 0, 0, 0, 0, 0, 0, 0, 0, 0, 0, 0, 0]"
  using increment_big_endian
    [of "[255, 255, 255, 255, 255, 255, 255, 255, 255, 255, 255, 255, 255, 255, 255, 255]"]
  by (simp add: be_value_def be_bytes_numeral)

section \<open>CTR\<close>

lemma CTR_refill_data_free:
  "length (counter st) = 16 \<Longrightarrow>
   \<exists>st1. CTR_refill C st = Inr st1 \<and> length (counter st1) = 16"
  by (simp add: CTR_refill_def AES_encrypt_16)

lemma CTR_encrypt_total:
  "length (counter st) = 16 \<Longrightarrow>
   \<exists>c st'. CTR_encrypt C st p = Inr (c, st') \<and> length c = length p"
proof (induction p arbitrary: st)
  case Nil
  then show ?case by simp
next
  case (Cons x xs)
  from CTR_refill_data_free [OF Cons.prems, of C] obtain st1
    where r: "CTR_refill C st = Inr st1" and l: "length (counter st1) = 16" by blast
  define st2 where "st2 = st1\<lparr>remainingCounterIndex := remainingCounterIndex st1 + 1\<rparr>"
  have "length (counter st2) = 16" using l by (simp add: st2_def)
  from Cons.IH [OF this] obtain c st' where
    "CTR_encrypt C st2 xs = Inr (c, st')" "length c = length xs" by blast
  then show ?case
    using r by (simp add: Let_def st2_def)
qed

lemma CTR_encrypt_involution:
  "CTR_encrypt C st p = Inr (c, st') \<Longrightarrow> CTR_encrypt C st c = Inr (p, st')"
proof (induction p arbitrary: st c st')
  case Nil
  then show ?case by simp
next
  case (Cons x xs)
  from Cons.prems obtain st1 where r: "CTR_refill C st = Inr st1"
    by (auto simp: ebind_eq_Inr)
  define st2 where "st2 = st1\<lparr>remainingCounterIndex := remainingCounterIndex st1 + 1\<rparr>"
  define k where "k = rd (remainingCounter st1) (remainingCounterIndex st1)"
  from Cons.prems r obtain out where
    rest: "CTR_encrypt C st2 xs = Inr (out, st')" and c: "c = (x XOR k) # out"
    by (auto simp: ebind_eq_Inr Let_def st2_def k_def)
  from Cons.IH [OF rest] have "CTR_encrypt C st2 out = Inr (xs, st')" .
  then show ?case
    using r by (simp add: c Let_def st2_def k_def xor_xor_cancel)
qed

lemma CTR_new_ok:
  "length key \<in> {16, 24, 32} \<Longrightarrow> length iv = 16 \<Longrightarrow>
   CTR_new key iv = Inr \<lparr>ctr_key = key, counter = iv, remainingCounter = [], remainingCounterIndex = 16\<rparr>"
  by (simp add: CTR_new_def AES_new_def Counter_new_def)

lemma CTR_first_byte:
  assumes "length key \<in> {16, 24, 32}" "length iv = 16"
    and "CTR_new key iv = Inr ctr" and "CTR_encrypt C ctr (x # xs) = Inr (c, st')"
  shows "hd c = x XOR hd (block16 (enc C key iv))"
proof -
  have ctr: "ctr = \<lparr>ctr_key = key, counter = iv, remainingCounter = [], remainingCounterIndex = 16\<rparr>"
    using assms(3) CTR_new_ok [OF assms(1,2)] by simp
  have "block16 (enc C key iv) \<noteq> []"
    using length_block16 [of "enc C key iv"] by (metis length_0_conv zero_neq_numeral)
  then have "rd (block16 (enc C key iv)) 0 = hd (block16 (enc C key iv))"
    by (simp add: rd_def hd_conv_nth)
  then show ?thesis
    using assms(2,4)
    by (auto simp: ctr CTR_refill_def AES_encrypt_16 Let_def ebind_eq_Inr)
qed

section \<open>PMAC-SIV\<close>

lemma length_pmac_pad: "length block \<le> 16 \<Longrightarrow> length (pmac_pad block) = 16"
  by (simp add: pmac_pad_def Let_def length_write_at)

lemma pmac_blocks_length:
  "length off = 16 \<Longrightarrow> length cs = 16 \<Longrightarrow>
   length (fst (pmac_blocks Ls data n i (off, cs))) = 16 \<and>
   length (snd (pmac_blocks Ls data n i (off, cs))) = 16"
  by (induction n arbitrary: i off cs) (simp_all add: Let_def)

lemma pmac_ok: "\<exists>t. pmac C m data = Inr t \<and> length t = 16"
proof -
  define numBlocks where "numBlocks = (length data + 15) div 16"
  define oc where "oc =
     (if numBlocks = 0 then (double (zeros 16), xor_bytes (zeros 16) (pmac_pad data))
      else pmac_blocks (ps_L_series m) data numBlocks 1 (zeros 16, zeros 16))"
  have "length (fst oc) = 16 \<and> length (snd oc) = 16"
    using pmac_blocks_length [of "zeros 16" "zeros 16" "ps_L_series m" data numBlocks 1]
    by (simp add: oc_def)
  then have "length (xor_bytes (snd oc) (fst oc)) = 16" by simp
  then have "AES_encrypt C (ps_key m) (xor_bytes (snd oc) (fst oc))
             = Inr (block16 (enc C (ps_key m) (xor_bytes (snd oc) (fst oc))))"
    by (rule AES_encrypt_16)
  then show ?thesis
    by (simp add: pmac_def Let_def numBlocks_def [symmetric] oc_def [symmetric] case_prod_beta)
qed

lemma pmac_siv_iv_ok:
  "\<exists>iv. pmac_siv_iv C m text nonce aad = Inr iv \<and> length iv = 16"
proof -
  obtain a where a: "pmac C m nonce = Inr a" "length a = 16" using pmac_ok by blast
  obtain b where b: "pmac C m aad = Inr b" using pmac_ok by blast
  obtain c where c: "pmac C m text = Inr c" using pmac_ok by blast
  show ?thesis by (simp add: pmac_siv_iv_def a b c)
qed

lemma PMAC_SIV_new_Inr:
  "PMAC_SIV_new C key tagSize = Inr m \<Longrightarrow>
   ps_key m = key \<and> length key \<in> {16, 24, 32} \<and> ps_tagSize m = tagSize \<and>
   8 \<le> tagSize \<and> tagSize \<le> 16"
  by (auto simp: PMAC_SIV_new_def AES_new_def ebind_eq_Inr split: if_splits)

lemma fold_keep: "fold (\<lambda>i acc. acc) xs a = a"
  by (induction xs arbitrary: a) simp_all

lemma tags_differ_same [simp]: "tags_differ n t t = 0"
  by (simp add: tags_differ_def fold_keep)

lemma demo_L_star_eq: "AES_encrypt demo_cipher demo_key (zeros 16) = Inr demo_L_star"
  by (simp add: AES_encrypt_def demo_cipher_def demo_key_def zeros_16 block16_def demo_L_star_def)

lemma demo_pmac_siv_new: "PMAC_SIV_new demo_cipher demo_key 8 = Inr demo_pmac_siv"
  by (simp add: PMAC_SIV_new_def AES_new_def demo_L_star_eq demo_pmac_siv_def)
    (simp add: demo_key_def)

lemma nth_push_doubles: "j < length Ls \<Longrightarrow> push_doubles n i Ls ! j = Ls ! j"
  by (induction n arbitrary: i Ls) (simp_all add: nth_append)

lemma make_L_series_0: "make_L_series L ! 0 = L"
  by (simp add: make_L_series_def nth_push_doubles)

lemma ntz_1: "ntz (Suc 0) = 0"
  by (simp add: ntz_def)

lemma pmac_empty:
  "pmac C m [] = AES_encrypt C (ps_key m) (pmac_pad [])"
  by (simp add: pmac_def Let_def double_zeros xor_bytes_zeros_left xor_bytes_zeros_right
        length_pmac_pad)

lemma pmac_one_block:
  assumes "0 < length data" "length data \<le> 16"
  shows "pmac C m data =
         AES_encrypt C (ps_key m)
           (xor_bytes (if length data = 16 then data else pmac_pad data)
              (xor_bytes (zeros 16) (ps_L_series m ! 0)))"
proof -
  have nb: "(length data + 15) div 16 = 1" using assms by arith
  have sub: "subarray data 0 (min 16 (length data)) = data"
    using assms by (simp add: subarray_def)
  have l: "length (if length data = 16 then data else pmac_pad data) = 16"
    using assms by (simp add: length_pmac_pad)
  show ?thesis
    using l assms
    by (auto simp add: pmac_def nb Let_def ntz_1 sub xor_bytes_zeros_left subarray_def)
qed

lemma pmac_pad_empty: "pmac_pad [] = [0x80,0,0,0,0,0,0,0,0,0,0,0,0,0,0,0]"
  by (simp add: pmac_pad_def write_at_def zeros_16)

lemma pmac_pad_one: "pmac_pad [x] = [x,0x80,0,0,0,0,0,0,0,0,0,0,0,0,0,0]"
  by (simp add: pmac_pad_def write_at_def zeros_16)

lemmas demo_eval = AES_encrypt_def demo_cipher_def demo_key_def block16_def zeros_16
  demo_L_star_def demo_pmac_siv_def

lemma demo_pmac_siv_iv:
  "pmac_siv_iv demo_cipher demo_pmac_siv [0x41] [] [] = Inr demo_iv"
  by (simp add: pmac_siv_iv_def pmac_empty pmac_one_block pmac_pad_empty pmac_pad_one
        make_L_series_0 demo_eval demo_iv_def)

lemma demo_keystreams_differ:
  "hd (block16 (enc demo_cipher demo_key demo_iv))
   \<noteq> hd (block16 (enc demo_cipher demo_key (write_at (zeros 16) (subarray demo_iv 0 8) 0)))"
  by (simp add: demo_eval demo_iv_def write_at_def subarray_def)

text \<open>With the full 16-byte tag the round trip holds, whatever the block cipher.\<close>

theorem PMAC_SIV_roundtrip_full_tag:
  assumes "PMAC_SIV_new C key 16 = Inr m"
  shows "\<exists>c t. PMAC_SIV_encrypt C m p nonce aad = Inr (c, t) \<and>
               PMAC_SIV_decrypt C m c t nonce aad = Inr (Some p)"
proof -
  from PMAC_SIV_new_Inr [OF assms] have k: "ps_key m = key" "length key \<in> {16, 24, 32}"
    and ts: "ps_tagSize m = 16" by simp_all
  obtain iv where iv: "pmac_siv_iv C m p nonce aad = Inr iv" "length iv = 16"
    using pmac_siv_iv_ok by blast
  define ctr where "ctr = \<lparr>ctr_key = key, counter = iv, remainingCounter = [], remainingCounterIndex = 16\<rparr>"
  have new: "CTR_new key iv = Inr ctr"
    using CTR_new_ok [OF k(2) iv(2)] by (simp add: ctr_def)
  obtain c st' where c: "CTR_encrypt C ctr p = Inr (c, st')"
    using CTR_encrypt_total [of ctr C p] iv(2) by (auto simp: ctr_def)
  have rt: "CTR_encrypt C ctr c = Inr (p, st')"
    by (rule CTR_encrypt_involution [OF c])
  have sub: "subarray iv 0 16 = iv" using iv(2) by (simp add: subarray_def)
  have e: "PMAC_SIV_encrypt C m p nonce aad = Inr (c, iv)"
    by (simp add: PMAC_SIV_encrypt_def iv k new c ts sub)
  have full: "set_bytes (zeros 16) iv 0 = Inr iv"
    using iv(2) by (simp add: set_bytes_def write_at_def)
  have d: "PMAC_SIV_decrypt C m c iv nonce aad = Inr (Some p)"
    by (simp add: PMAC_SIV_decrypt_def ts iv full k new rt)
  from e d show ?thesis by blast
qed

text \<open>
  C1. The claim: for every tag size from 8 to 16, decrypt applied to the ciphertext and
  \<open>iv_tag\<close> of encrypt returns the plaintext. The code encrypts with CTR started at the
  full 16-byte synthetic IV and returns its first \<open>tagSize\<close> bytes; decrypt starts CTR
  at the received tag padded with zero bytes. With 16 bytes the two counters are equal
  and the round trip holds for every block cipher (\<open>PMAC_SIV_roundtrip_full_tag\<close>).
  With fewer the counters differ in the bytes cut off, and whenever the first keystream
  byte under the two counters differs, decrypt of a non-empty plaintext does not return
  that plaintext.
\<close>

theorem PMAC_SIV_short_tag_breaks_roundtrip:
  assumes new: "PMAC_SIV_new C key tagSize = Inr m"
    and short: "tagSize < 16"
    and ne: "p \<noteq> []"
    and iv: "pmac_siv_iv C m p nonce aad = Inr iv"
    and ks: "hd (block16 (enc C key iv))
             \<noteq> hd (block16 (enc C key (write_at (zeros 16) (subarray iv 0 tagSize) 0)))"
  shows "\<exists>c t. PMAC_SIV_encrypt C m p nonce aad = Inr (c, t) \<and>
               PMAC_SIV_decrypt C m c t nonce aad \<noteq> Inr (Some p)"
proof -
  from PMAC_SIV_new_Inr [OF new] have k: "ps_key m = key" "length key \<in> {16, 24, 32}"
    and ts: "ps_tagSize m = tagSize" by simp_all
  have liv: "length iv = 16" using pmac_siv_iv_ok [of C m p nonce aad] iv by simp
  obtain x xs where p: "p = x # xs" using ne by (cases p) auto
  define ctr where "ctr = \<lparr>ctr_key = key, counter = iv, remainingCounter = [], remainingCounterIndex = 16\<rparr>"
  have cnew: "CTR_new key iv = Inr ctr"
    using CTR_new_ok [OF k(2) liv] by (simp add: ctr_def)
  obtain c st' where c: "CTR_encrypt C ctr p = Inr (c, st')" "length c = length p"
    using CTR_encrypt_total [of ctr C p] liv by (auto simp: ctr_def)
  have hc: "hd c = x XOR hd (block16 (enc C key iv))"
    using CTR_first_byte [OF k(2) liv cnew] c(1) by (simp add: p)
  obtain y ys where cy: "c = y # ys" using c(2) p by (cases c) auto
  define t where "t = subarray iv 0 tagSize"
  have lt: "length t = tagSize" using liv short by (simp add: t_def subarray_def)
  have e: "PMAC_SIV_encrypt C m p nonce aad = Inr (c, t)"
    by (simp add: PMAC_SIV_encrypt_def iv k cnew c ts t_def)
  define iv' where "iv' = write_at (zeros 16) t 0"
  have liv': "length iv' = 16" using lt short by (simp add: iv'_def length_write_at)
  have full: "set_bytes (zeros 16) t 0 = Inr iv'"
    using lt short by (simp add: set_bytes_def iv'_def)
  define ctr' where "ctr' = \<lparr>ctr_key = key, counter = iv', remainingCounter = [], remainingCounterIndex = 16\<rparr>"
  have cnew': "CTR_new key iv' = Inr ctr'"
    using CTR_new_ok [OF k(2) liv'] by (simp add: ctr'_def)
  obtain q st'' where q: "CTR_encrypt C ctr' c = Inr (q, st'')" "length q = length c"
    using CTR_encrypt_total [of ctr' C c] liv' by (auto simp: ctr'_def)
  have hq: "hd q = y XOR hd (block16 (enc C key iv'))"
    using CTR_first_byte [OF k(2) liv' cnew'] q(1) by (simp add: cy)
  have "y = x XOR hd (block16 (enc C key iv))" using hc cy by simp
  then have "hd q = x XOR (hd (block16 (enc C key iv)) XOR hd (block16 (enc C key iv')))"
    using hq by (simp add: xor.assoc)
  moreover have "hd (block16 (enc C key iv)) XOR hd (block16 (enc C key iv')) \<noteq> 0"
    using ks xor_eq_zero_D by (auto simp: iv'_def t_def)
  ultimately have "hd q \<noteq> x"
    using xor_fixed_D [of x "hd (block16 (enc C key iv)) XOR hd (block16 (enc C key iv'))"] by auto
  then have qp: "q \<noteq> p" using p by auto
  have "PMAC_SIV_decrypt C m c t nonce aad \<noteq> Inr (Some p)"
  proof
    assume a: "PMAC_SIV_decrypt C m c t nonce aad = Inr (Some p)"
    obtain iv2 where iv2: "pmac_siv_iv C m q nonce aad = Inr iv2"
      using pmac_siv_iv_ok by blast
    from a have "q = p"
      by (simp add: PMAC_SIV_decrypt_def ts lt full k cnew' q iv2 split: if_splits)
    with qp show False by simp
  qed
  with e show ?thesis by blast
qed

theorem PMAC_SIV_short_tag_breaks_roundtrip_witness:
  "PMAC_SIV_new demo_cipher demo_key 8 = Inr demo_pmac_siv \<and>
   (\<exists>c t. PMAC_SIV_encrypt demo_cipher demo_pmac_siv [0x41] [] [] = Inr (c, t) \<and>
          PMAC_SIV_decrypt demo_cipher demo_pmac_siv c t [] [] \<noteq> Inr (Some [0x41]))"
  using PMAC_SIV_short_tag_breaks_roundtrip [OF demo_pmac_siv_new _ _ demo_pmac_siv_iv
      demo_keystreams_differ]
  by (simp add: demo_pmac_siv_new)

text \<open>
  The same input evaluated: with an 8-byte tag, the one-byte plaintext 0x41, an empty
  nonce and no associated data, decrypt returns the failure value \<open>None\<close>.
\<close>

theorem PMAC_SIV_tag8_example:
  "PMAC_SIV_encrypt demo_cipher demo_pmac_siv [0x41] [] [] = Inr ([111], [125, 168, 163, 105, 246, 94, 180, 1])
   \<and> PMAC_SIV_decrypt demo_cipher demo_pmac_siv [111] [125, 168, 163, 105, 246, 94, 180, 1] [] [] = Inr None"
  apply (simp add: PMAC_SIV_encrypt_def PMAC_SIV_decrypt_def demo_pmac_siv_iv)
  apply (simp add: demo_iv_def subarray_def set_bytes_def write_at_def CTR_new_def AES_new_def Counter_new_def CTR_refill_def rd_def demo_eval)
  apply (simp add: demo_pmac_siv_def [symmetric] demo_key_def [symmetric])
  apply (simp add: pmac_siv_iv_def pmac_empty pmac_one_block pmac_pad_empty pmac_pad_one
        make_L_series_0 demo_eval tags_differ_def upt_0_8 rd_def)
  done

section \<open>XTS\<close>

lemma XTS_new_Inr:
  "XTS_new key = Inr m \<Longrightarrow> length (xts_key1 m) \<in> {16, 32} \<and> length (xts_key2 m) \<in> {16, 32}"
  by (auto simp: XTS_new_def AES_new_def subarray_def Let_def ebind_eq_Inr split: if_splits)

text \<open>An input shorter than 16 bytes is refused with the length error, in both directions.\<close>

theorem XTS_rejects_short_input:
  "length data < 16 \<Longrightarrow>
   XTS_encrypt C m data tweak = Inl InvalidDataSize \<and>
   XTS_decrypt C m data tweak = Inl InvalidDataSize"
  by (simp add: XTS_encrypt_def XTS_decrypt_def)

text \<open>
  C2. The claim: every plaintext of at least 16 bytes is encrypted without an error. At
  exactly 16 bytes the guard \<^verbatim>\<open>plaintext.length < 16\<close> lets the input through, the loop
  does not run, and the branch for block-aligned data takes its "penultimate block" from
  \<^verbatim>\<open>subarray(-16, 0)\<close>, which is empty; \<^verbatim>\<open>aes1.encrypt\<close> refuses the empty block. So
  \<^verbatim>\<open>encrypt\<close> raises the size error of the AES class, and \<^verbatim>\<open>decrypt\<close> raises the
  one of \<^verbatim>\<open>AES.decrypt\<close>, for every key, every 16-byte tweak and every block cipher.
\<close>

theorem XTS_single_block_raises:
  assumes "length data = 16" "length tweak = 16"
  shows "XTS_encrypt C m data tweak = Inl InvalidPlaintextSize \<and>
         XTS_decrypt C m data tweak = Inl InvalidCiphertextSize"
proof -
  have e: "AES_encrypt C k [] = Inl InvalidPlaintextSize" for k
    by (simp add: AES_encrypt_def)
  have d: "AES_decrypt C k [] = Inl InvalidCiphertextSize" for k
    by (simp add: AES_decrypt_def)
  have s: "subarray_rel data (- 16) 0 = []"
    by (simp add: subarray_rel_def rel_index_def subarray_def)
  have l: "subarray_rel data 0 16 = data"
    using assms(1) by (simp add: subarray_rel_def rel_index_def subarray_def)
  have t: "AES_encrypt C (xts_key2 m) tweak = Inr (block16 (enc C (xts_key2 m) tweak))"
    using assms(2) by (rule AES_encrypt_16)
  have dl: "AES_decrypt C (xts_key1 m) (xor_bytes data T)
            = Inr (block16 (dec C (xts_key1 m) (xor_bytes data T)))" for T
    using assms(1) by (simp add: AES_decrypt_def)
  show ?thesis
    using assms
    by (simp add: XTS_encrypt_def XTS_decrypt_def XTS_encrypt_aligned_def
          XTS_decrypt_aligned_def t Let_def s l e d dl)
qed

theorem XTS_single_block_raises_witness:
  "length (zeros 16) = 16 \<and>
   XTS_encrypt demo_cipher \<lparr>xts_key1 = demo_key, xts_key2 = demo_key\<rparr> (zeros 16) (zeros 16)
     = Inl InvalidPlaintextSize \<and>
   XTS_decrypt demo_cipher \<lparr>xts_key1 = demo_key, xts_key2 = demo_key\<rparr> (zeros 16) (zeros 16)
     = Inl InvalidCiphertextSize"
  using XTS_single_block_raises
    [of "zeros 16" "zeros 16" demo_cipher "\<lparr>xts_key1 = demo_key, xts_key2 = demo_key\<rparr>"]
  by simp

section \<open>GCM\<close>

lemma ghash_final_block_bytes:
  "ghash_final_block a c =
     [low_byte (js_sar (int a * 8) 56), low_byte (js_sar (int a * 8) 48),
      low_byte (js_sar (int a * 8) 40), low_byte (js_sar (int a * 8) 32),
      low_byte (js_sar (int a * 8) 24), low_byte (js_sar (int a * 8) 16),
      low_byte (js_sar (int a * 8) 8), low_byte (js_sar (int a * 8) 0),
      low_byte (js_sar (int c * 8) 56), low_byte (js_sar (int c * 8) 48),
      low_byte (js_sar (int c * 8) 40), low_byte (js_sar (int c * 8) 32),
      low_byte (js_sar (int c * 8) 24), low_byte (js_sar (int c * 8) 16),
      low_byte (js_sar (int c * 8) 8), low_byte (js_sar (int c * 8) 0)]"
  by (simp add: ghash_final_block_def Let_def upt_0_8 zeros_16 list_update_Cons_numeral)

lemma of_nat_mod_256: "(of_nat (n mod 256) :: byte) = of_nat n"
  by (simp add: word_of_nat_eq_iff take_bit_eq_mod)

lemma to_int32_small: "x < 2 ^ 31 \<Longrightarrow> to_int32 (int x) = int x"
  by (simp add: to_int32_def)

lemma low_byte_js_sar:
  assumes "x < 2 ^ 31"
  shows "low_byte (js_sar (int x) s) = of_nat (x div 2 ^ (s mod 32))"
proof -
  have "js_sar (int x) s = int (x div 2 ^ (s mod 32))"
    using assms by (simp add: js_sar_def to_int32_small zdiv_int)
  then show ?thesis by (simp add: low_byte_def)
qed

lemma be_bytes_4:
  "be_bytes 4 v = [of_nat (v div 16777216), of_nat (v div 65536), of_nat (v div 256), of_nat v]"
  by (simp add: be_bytes_numeral of_nat_mod_256 div_mult2_eq [symmetric])

lemma be_bytes_8:
  "be_bytes 8 v = be_bytes 4 (v div 4294967296) @ be_bytes 4 v"
  by (simp add: be_bytes_numeral of_nat_mod_256 div_mult2_eq [symmetric])

text \<open>
  C3. The claim: bytes 0-7 of the final GHASH block hold the bit length of the
  associated data as a 64-bit big-endian number and bytes 8-15 that of the ciphertext,
  so that for inputs shorter than 2^28 bytes the first four bytes of each field are zero.
  In the code byte \<open>7 - i\<close> is \<^verbatim>\<open>(lenA >> (i * 8)) & 0xff\<close>, and \<^verbatim>\<open>>>\<close> takes its shift
  count modulo 32: for \<open>i\<close> from 4 to 7 the shift is again 0, 8, 16, 24. For inputs
  shorter than 2^28 bytes each 8-byte field is therefore the 32-bit big-endian bit
  length written twice.
\<close>

theorem ghash_final_block_repeats_32_bits:
  assumes "a < 2 ^ 28" "c < 2 ^ 28"
  shows "ghash_final_block a c =
         be_bytes 4 (8 * a) @ be_bytes 4 (8 * a) @ be_bytes 4 (8 * c) @ be_bytes 4 (8 * c)"
proof -
  define x where "x = 8 * a"
  define y where "y = 8 * c"
  have x: "x < 2 ^ 31" and y: "y < 2 ^ 31" using assms by (simp_all add: x_def y_def)
  have ia: "int a * 8 = int x" and ic: "int c * 8 = int y" by (simp_all add: x_def y_def)
  have "ghash_final_block a c =
        [of_nat (x div 16777216), of_nat (x div 65536), of_nat (x div 256), of_nat x,
         of_nat (x div 16777216), of_nat (x div 65536), of_nat (x div 256), of_nat x,
         of_nat (y div 16777216), of_nat (y div 65536), of_nat (y div 256), of_nat y,
         of_nat (y div 16777216), of_nat (y div 65536), of_nat (y div 256), of_nat y]"
    unfolding ghash_final_block_bytes ia ic
    by (simp add: low_byte_js_sar [OF x] low_byte_js_sar [OF y])
  then show ?thesis
    by (simp add: be_bytes_4 x_def [symmetric] y_def [symmetric])
qed

theorem ghash_final_block_repeats_32_bits_witness:
  "(1 :: nat) < 2 ^ 28 \<and> (0 :: nat) < 2 ^ 28 \<and>
   ghash_final_block (length [0 :: byte]) (length ([] :: bytes))
     = [0, 0, 0, 8, 0, 0, 0, 8, 0, 0, 0, 0, 0, 0, 0, 0]"
  using ghash_final_block_repeats_32_bits [of 1 0]
  by (simp add: be_bytes_4)

text \<open>
  Hence, for non-empty associated data shorter than 2^28 bytes, the block is not the
  one of the two 64-bit big-endian lengths.
\<close>

theorem ghash_final_block_not_64_bit:
  assumes "0 < a" "a < 2 ^ 28" "c < 2 ^ 28"
  shows "ghash_final_block a c \<noteq> be_bytes 8 (8 * a) @ be_bytes 8 (8 * c)"
proof -
  have small: "8 * a div 4294967296 = 0" using assms(2) by simp
  have nz: "be_bytes 4 (8 * a) \<noteq> be_bytes 4 0"
  proof
    assume "be_bytes 4 (8 * a) = be_bytes 4 0"
    then have "be_value (be_bytes 4 (8 * a)) = be_value (be_bytes 4 0)" by simp
    moreover have "be_value (be_bytes n v) = v mod 256 ^ n" for n v
    proof (induction n arbitrary: v)
      case 0
      then show ?case by (simp add: be_value_Nil)
    next
      case (Suc n)
      have "unat (of_nat (v mod 256) :: byte) = v mod 256"
        by (simp add: unat_of_nat take_bit_eq_mod)
      then show ?case
        using Suc [of "v div 256"]
        by (simp add: be_value_snoc mod_mult2_eq)
    qed
    ultimately have "8 * a mod 256 ^ 4 = 0" by simp
    with assms show False by simp
  qed
  have "be_bytes 4 (8 * a) @ r \<noteq> be_bytes 4 0 @ r'" for r r'
    using nz by (simp add: append_eq_append_conv length_be_bytes)
  then show ?thesis
    unfolding ghash_final_block_repeats_32_bits [OF assms(2,3)] be_bytes_8 small
    by simp
qed

section \<open>CBC-MAC and CMAC\<close>

text \<open>A chain of block encryptions never throws: the running block has 16 bytes.\<close>

lemma chain_ok:
  assumes "length X = 16"
  shows "\<exists>Y. efold (\<lambda>i X. AES_encrypt C key (xor_bytes X (blk i))) js X = Inr Y \<and> length Y = 16"
  using assms
proof (induction js arbitrary: X)
  case Nil
  then show ?case by simp
next
  case (Cons i js)
  have "AES_encrypt C key (xor_bytes X (blk i)) = Inr (block16 (enc C key (xor_bytes X (blk i))))"
    using Cons.prems by (simp add: AES_encrypt_16)
  then show ?case using Cons.IH [of "block16 (enc C key (xor_bytes X (blk i)))"] by simp
qed

lemma chain_then_const:
  assumes "length X = 16"
  shows "ebind (efold (\<lambda>i X. AES_encrypt C key (xor_bytes X (blk i))) js X) (\<lambda>Y. Inr c) = Inr c"
  using chain_ok [OF assms, of C key blk js] by auto

lemma chain_then_last_const:
  assumes "length X = 16"
  shows "ebind (efold (\<lambda>i X. AES_encrypt C key (xor_bytes X (blk i))) js X)
           (\<lambda>Y. ebind (AES_encrypt C key (xor_bytes Y lb)) (\<lambda>T. Inr c)) = Inr c"
proof -
  obtain Y where Y: "efold (\<lambda>i X. AES_encrypt C key (xor_bytes X (blk i))) js X = Inr Y"
    "length Y = 16"
    using chain_ok [OF assms, of C key blk js] by auto
  show ?thesis by (simp add: Y AES_encrypt_16)
qed

lemma subarray_0_0 [simp]: "subarray a 0 0 = []"
  by (simp add: subarray_def)

lemma CBC_MAC_generateTag_empty_tag: "CBC_MAC_generateTag C key message 0 = Inr []"
  by (simp add: CBC_MAC_generateTag_def Let_def chain_then_const)

lemma CMAC_generateTag_empty_tag: "CMAC_generateTag C m message 0 = Inr []"
  by (simp add: CMAC_generateTag_def Let_def chain_then_last_const)

text \<open>
  C6. For every key and every message, \<^verbatim>\<open>verifyTag\<close> of CBC-MAC and of CMAC returns
  true for the tag of length zero: the tag is regenerated at the length of the received
  tag, both are empty, and the comparison loop does not run.
\<close>

theorem verifyTag_accepts_empty_tag:
  "CBC_MAC_verifyTag C key message [] = Inr True \<and> CMAC_verifyTag C m message [] = Inr True"
  by (simp add: CBC_MAC_verifyTag_def CMAC_verifyTag_def CBC_MAC_generateTag_empty_tag
        CMAC_generateTag_empty_tag tags_differ_def)

text \<open>
  C4. The claim: for a message whose length is a non-zero multiple of 16, the CMAC tag
  is the CBC-MAC chain over the message's own blocks with K1 XORed into the message's
  last block, and no further block is processed. The code takes
  \<open>n = \<lceil>(length + 1) / 16\<rceil>\<close> blocks, one more than the message has: it runs the
  plain chain over every block of the message, the last one included, and then encrypts
  once more, the chain value XORed with K1 (the appended zero block XORed with K1).
\<close>

theorem CMAC_aligned_processes_extra_block:
  assumes len: "length message = 16 * k" and k: "0 < k" and t: "tagSize \<le> 16"
  shows "CMAC_generateTag C m message tagSize =
         ebind (efold (\<lambda>i X. AES_encrypt C (cmac_key m)
                                (xor_bytes X (subarray message (i * 16) ((i + 1) * 16))))
                  [0..<k] (zeros 16)) (\<lambda>X.
         ebind (AES_encrypt C (cmac_key m) (xor_bytes X (xor_bytes (zeros 16) (cmac_K1 m))))
           (\<lambda>T. Inr (subarray T 0 tagSize)))"
proof -
  have c: "(length message + 1 + 15) div 16 = k + 1" using len by simp
  have pm: "write_at (zeros ((k + 1) * 16)) message 0 = message @ zeros 16"
    using len by (simp add: write_at_zeros_prefix)
  have nopad: "\<not> (length message = 0 \<or> length message mod 16 \<noteq> 0)"
    using len k by simp
  have tail: "subarray (message @ zeros 16) (length (message @ zeros 16) - 16)
                (length (message @ zeros 16)) = zeros 16"
    by (simp add: subarray_def)
  have blk: "subarray (message @ zeros 16) (i * 16) ((i + 1) * 16)
             = subarray message (i * 16) ((i + 1) * 16)" if "i < k" for i
    using that len by (simp add: subarray_def)
  have loop: "efold (\<lambda>i X. AES_encrypt C (cmac_key m)
                 (xor_bytes X (subarray (message @ zeros 16) (i * 16) ((i + 1) * 16)))) [0..<k] s
            = efold (\<lambda>i X. AES_encrypt C (cmac_key m)
                 (xor_bytes X (subarray message (i * 16) ((i + 1) * 16)))) [0..<k] s" for s
    by (rule efold_cong_list) (use blk in simp)
  have "CMAC_generateTag C m message tagSize =
        ebind (efold (\<lambda>i X. AES_encrypt C (cmac_key m)
                 (xor_bytes X (subarray (message @ zeros 16) (i * 16) ((i + 1) * 16)))) [0..<k]
                 (zeros 16)) (\<lambda>X.
         ebind (AES_encrypt C (cmac_key m) (xor_bytes X (xor_bytes (zeros 16) (cmac_K1 m))))
           (\<lambda>T. Inr (subarray T 0 tagSize)))"
    using t nopad pm tail unfolding CMAC_generateTag_def c Let_def
    by simp
  then show ?thesis by (simp only: loop)
qed

lemma demo_K1: "double demo_L_star = [20, 6, 219, 146, 48, 183, 39, 131, 204, 6, 50, 82, 104, 118, 126, 5]"
  by (simp add: demo_L_star_def double_16)

lemma demo_cmac_new: "CMAC_new demo_cipher demo_key = Inr demo_cmac"
  by (simp add: CMAC_new_def generateSubkey_def AES_new_def demo_L_star_eq demo_cmac_def)
     (simp add: demo_key_def)

text \<open>
  At a one-block message the tag of the code and the tag of the chain the claim
  describes (\<open>cmac_aligned_spec\<close>) differ.
\<close>

theorem CMAC_aligned_processes_extra_block_witness:
  "length demo_block = 16 * 1 \<and> (0 :: nat) < 1 \<and> (16 :: nat) \<le> 16 \<and>
   CMAC_generateTag demo_cipher demo_cmac demo_block 16
     = Inr [13, 189, 55, 103, 254, 196, 178, 180, 251, 44, 66, 97, 251, 160, 184, 96] \<and>
   cmac_aligned_spec demo_cipher demo_cmac demo_block 16
     = Inr [147, 59, 68, 168, 99, 57, 124, 42, 139, 240, 15, 74, 20, 57, 100, 122]"
proof -
  have l: "length demo_block = 16 * 1" by (simp add: demo_block_def)
  have code: "CMAC_generateTag demo_cipher demo_cmac demo_block 16
     = Inr [13, 189, 55, 103, 254, 196, 178, 180, 251, 44, 66, 97, 251, 160, 184, 96]"
    unfolding CMAC_aligned_processes_extra_block [OF l, of 16 demo_cipher demo_cmac, simplified]
    by (simp add: demo_cmac_def demo_K1 demo_block_def subarray_def AES_encrypt_def
          demo_cipher_def demo_key_def block16_def zeros_16)
  have spec: "cmac_aligned_spec demo_cipher demo_cmac demo_block 16
     = Inr [147, 59, 68, 168, 99, 57, 124, 42, 139, 240, 15, 74, 20, 57, 100, 122]"
    by (simp add: cmac_aligned_spec_def demo_cmac_def demo_K1 demo_block_def subarray_def
          AES_encrypt_def demo_cipher_def demo_key_def block16_def zeros_16 Let_def)
  from l code spec show ?thesis by simp
qed

section \<open>CBC\<close>

text \<open>
  C9. The claim: every mode leaves the arrays passed to \<^verbatim>\<open>encrypt\<close> and \<^verbatim>\<open>decrypt\<close> with
  their contents, and CBC \<^verbatim>\<open>encrypt\<close> in particular leaves the caller's plaintext
  unchanged. CBC \<^verbatim>\<open>encrypt\<close> XORs the chaining value into a \<^verbatim>\<open>subarray\<close> view of the
  plaintext, that is into the caller's buffer: after encrypting one block, the buffer
  holds the plaintext XOR the IV, whatever the key and the block cipher. The witness is
  the zero block encrypted under a non-zero IV: the caller's buffer then holds the IV.
\<close>

theorem CBC_encrypt_overwrites_plaintext:
  assumes "length plaintext = 16" "length (lastCipherblock st) = 16"
  shows "\<exists>ciphertext st'.
           CBC_encrypt C st plaintext
             = Inr (ciphertext, xor_bytes plaintext (lastCipherblock st), st')"
proof -
  have s: "subarray plaintext 0 16 = plaintext" using assms(1) by (simp add: subarray_def)
  have w: "write_at plaintext (xor_bytes plaintext (lastCipherblock st)) 0
           = xor_bytes plaintext (lastCipherblock st)"
    using assms(1) by (simp add: write_at_def)
  have s2: "subarray (xor_bytes plaintext (lastCipherblock st)) 0 16
            = xor_bytes plaintext (lastCipherblock st)"
    using assms(1) by (simp add: subarray_def)
  have e: "AES_encrypt C k (xor_bytes plaintext b)
           = Inr (block16 (enc C k (xor_bytes plaintext b)))" for k b
    using assms(1) by (simp add: AES_encrypt_16)
  show ?thesis
    using assms
    by (simp add: CBC_encrypt_def CBC_encrypt_step_def upt_0_1 Let_def s w s2 e set_bytes_def)
qed

theorem CBC_encrypt_overwrites_plaintext_witness:
  "CBC_new demo_key (Some demo_block) = Inr \<lparr>cbc_key = demo_key, lastCipherblock = demo_block\<rparr> \<and>
   length (zeros 16) = 16 \<and>
   (\<exists>ciphertext st'.
      CBC_encrypt demo_cipher \<lparr>cbc_key = demo_key, lastCipherblock = demo_block\<rparr> (zeros 16)
        = Inr (ciphertext, demo_block, st')) \<and>
   demo_block \<noteq> zeros 16"
  using CBC_encrypt_overwrites_plaintext
    [of "zeros 16" "\<lparr>cbc_key = demo_key, lastCipherblock = demo_block\<rparr>" demo_cipher]
  by (simp add: xor_bytes_zeros_left CBC_new_def AES_new_def)
     (simp add: demo_block_def demo_key_def zeros_16)

section \<open>OCB\<close>

lemma length_ocb_pad: "length block \<le> 16 \<Longrightarrow> length (ocb_pad block) = 16"
  by (simp add: ocb_pad_def length_write_at)

lemma length_subarray_le: "length (subarray a i (i + 16)) \<le> 16"
  by (simp add: subarray_def)

lemma ocb_aad_step_zero:
  assumes "ident (ocb_L_star m) < ident off" "ident off < h" "bytes_of off = zeros 16"
  shows "\<exists>cs'. ocb_aad_step C m aad k (h, off, cs)
           = Inr (h + 1, \<lparr>ident = h, bytes_of = zeros 16\<rparr>, cs')"
proof -
  define block where "block = subarray aad (16 * k) (16 * k + 16)"
  have l: "length (if length block = 16 then block else ocb_pad block) = 16"
    using length_subarray_le [of aad "16 * k"]
    by (simp add: block_def length_ocb_pad)
  have e: "AES_encrypt C (ocb_key m)
             (xor_bytes (if length block = 16 then block else ocb_pad block) (zeros 16))
           = Inr (block16 (enc C (ocb_key m)
                  (xor_bytes (if length block = 16 then block else ocb_pad block) (zeros 16))))"
    by (rule AES_encrypt_16) (simp only: length_xor_bytes l)
  have ne: "ident off \<noteq> ident (ocb_L_star m)" using assms(1) by simp
  show ?thesis
    unfolding ocb_aad_step_def
    using ne e
    by (simp add: Let_def assms(3) double_zeros block_def [symmetric])
qed

lemma ocb_aad_passes_zero:
  assumes "ident (ocb_L_star m) < h"
  shows "\<exists>h' i cs. ocb_aad_passes C m aad h n
           = Inr (h', \<lparr>ident = i, bytes_of = zeros 16\<rparr>, cs) \<and>
           ident (ocb_L_star m) < i \<and> i < h'"
proof (induction n)
  case 0
  then show ?case using assms by (simp add: ocb_aad_passes_def)
next
  case (Suc n)
  then obtain h' i cs where
    st: "ocb_aad_passes C m aad h n = Inr (h', \<lparr>ident = i, bytes_of = zeros 16\<rparr>, cs)"
    and i: "ident (ocb_L_star m) < i" "i < h'" by blast
  obtain cs' where
    step: "ocb_aad_step C m aad n (h', \<lparr>ident = i, bytes_of = zeros 16\<rparr>, cs)
           = Inr (h' + 1, \<lparr>ident = h', bytes_of = zeros 16\<rparr>, cs')"
    using ocb_aad_step_zero [of m "\<lparr>ident = i, bytes_of = zeros 16\<rparr>" h' C aad n cs] i
    by auto
  have "ocb_aad_passes C m aad h (Suc n)
        = ebind (ocb_aad_passes C m aad h n) (efold (ocb_aad_step C m aad) [n])"
    by (simp add: ocb_aad_passes_def efold_append)
  then have "ocb_aad_passes C m aad h (Suc n)
        = Inr (h' + 1, \<lparr>ident = h', bytes_of = zeros 16\<rparr>, cs')"
    by (simp add: st step)
  then show ?case using i by auto
qed

lemma OCB_new_Inr:
  "OCB_new C key tagSize h0 = Inr m \<Longrightarrow>
   ident (ocb_L_star m) = h0 \<and> ocb_tagSize m = tagSize \<and> ocb_key m = key \<and>
   bytes_of (ocb_L_star m) = block16 (enc C key (zeros 16)) \<and>
   ocb_L_series m = make_L_series (block16 (enc C key (zeros 16)))"
  by (auto simp: OCB_new_def AES_new_def AES_encrypt_def ebind_eq_Inr split: if_splits)

lemma pmac_offset_1: "pmac_offset (make_L_series L) (Suc 0) = xor_bytes (zeros 16) L"
  by (simp add: pmac_offset_def ntz_1 make_L_series_0)

lemma demo_ocb_new: "OCB_new demo_cipher demo_key 16 0 = Inr demo_ocb"
  by (simp add: OCB_new_def AES_new_def demo_L_star_eq demo_ocb_def)
     (simp add: demo_key_def)

text \<open>
  C5. The claim: the offset XORed into the i-th block of the associated data is the XOR
  of \<open>L_series[ntz(j)]\<close> for \<open>j\<close> from 1 to \<open>i\<close>. The loop of the code instead sets
  \<^verbatim>\<open>authOffset = _double(authOffset === L_star ? _double(L_star) : authOffset)\<close>. The
  comparison is between objects; \<^verbatim>\<open>authOffset\<close> is an array created in the call and
  \<^verbatim>\<open>L_star\<close> one created by the constructor, so it is never true, and the offset stays
  the double of a zero block: zero, for every block, every associated data and every
  block cipher.
\<close>

theorem OCB_aad_offset_is_zero:
  assumes "OCB_new C key tagSize h0 = Inr m" and "h0 < h"
  shows "\<exists>h' authOffset authChecksum.
           ocb_aad_passes C m associatedData h i = Inr (h', authOffset, authChecksum) \<and>
           bytes_of authOffset = zeros 16"
proof -
  have "ident (ocb_L_star m) < h" using OCB_new_Inr [OF assms(1)] assms(2) by simp
  from ocb_aad_passes_zero [OF this, of C associatedData i] show ?thesis by auto
qed

theorem OCB_aad_offset_is_zero_witness:
  "OCB_new demo_cipher demo_key 16 0 = Inr demo_ocb \<and> (0 :: nat) < 1 \<and>
   (\<exists>h' authOffset authChecksum.
      ocb_aad_passes demo_cipher demo_ocb demo_block 1 1 = Inr (h', authOffset, authChecksum) \<and>
      bytes_of authOffset = [0, 0, 0, 0, 0, 0, 0, 0, 0, 0, 0, 0, 0, 0, 0, 0]) \<and>
   pmac_offset (ocb_L_series demo_ocb) 1
     = [138, 3, 109, 201, 24, 91, 147, 193, 230, 3, 25, 41, 52, 59, 63, 65]"
  using OCB_aad_offset_is_zero [OF demo_ocb_new, of 1 demo_block 1]
  by (simp add: demo_ocb_new zeros_16 [symmetric])
     (simp add: demo_ocb_def pmac_offset_1 demo_L_star_def zeros_16)

text \<open>
  The offset the claim describes for the first block is \<open>L_series[0]\<close>, the encryption
  of the zero block; whenever that is not zero, the offset of the code differs from it.
\<close>

theorem OCB_aad_offset_is_not_pmac_offset:
  assumes "OCB_new C key tagSize h0 = Inr m" and "h0 < h"
    and "block16 (enc C key (zeros 16)) \<noteq> zeros 16"
  shows "\<exists>h' authOffset authChecksum.
           ocb_aad_passes C m associatedData h 1 = Inr (h', authOffset, authChecksum) \<and>
           bytes_of authOffset \<noteq> pmac_offset (ocb_L_series m) 1"
proof -
  obtain h' off cs where
    p: "ocb_aad_passes C m associatedData h 1 = Inr (h', off, cs)" "bytes_of off = zeros 16"
    using OCB_aad_offset_is_zero [OF assms(1,2), of associatedData 1] by blast
  have "pmac_offset (ocb_L_series m) 1 = block16 (enc C key (zeros 16))"
    using OCB_new_Inr [OF assms(1)] by (simp add: pmac_offset_1 xor_bytes_zeros_left)
  with p assms(3) show ?thesis by auto
qed

section \<open>Tag length in the AEAD modes\<close>

text \<open>
  C7. The claim: in every AEAD mode \<^verbatim>\<open>decrypt\<close> with a tag whose length is not the
  configured one returns the failure value and raises nothing, for every ciphertext,
  nonce and associated data. GCM, CCM, EAX, OCB, PMAC-SIV and HybridCTR test the tag
  length first and do so. CWC and GCM-SIV test the nonce length first: they return the
  failure value when the nonce has 12 bytes and raise the nonce error otherwise,
  whatever the tag.
\<close>

theorem AEAD_decrypt_wrong_tag_length:
  "(length tag \<noteq> 16 \<longrightarrow> GCM_decrypt C gcm ciphertext tag aad = Inr None) \<and>
   (length tag \<noteq> ccm_tagSize ccm \<longrightarrow> CCM_decrypt C ccm ciphertext nonce tag aad = Inr None) \<and>
   (length tag \<noteq> eax_tagSize eax \<longrightarrow> EAX_decrypt C eax ciphertext tag nonce aad = Inr None) \<and>
   (length tag \<noteq> ocb_tagSize ocb \<longrightarrow> OCB_decrypt C ocb h ciphertext tag nonce aad = Inr None) \<and>
   (length tag \<noteq> ps_tagSize ps \<longrightarrow> PMAC_SIV_decrypt C ps ciphertext tag nonce aad = Inr None) \<and>
   (length tag \<noteq> hy_tagSize hy \<longrightarrow>
      HybridCTR_decrypt C hy ciphertext tag nonce aad tweak = Inr None) \<and>
   (length tag \<noteq> 16 \<and> length nonce = 12 \<longrightarrow>
      CWC_decrypt C cwc ciphertext tag nonce aad = Inr None) \<and>
   (length tag \<noteq> 16 \<and> length nonce = 12 \<longrightarrow>
      GCM_SIV_decrypt C gs ciphertext tag nonce aad = Inr None) \<and>
   (length nonce \<noteq> 12 \<longrightarrow>
      CWC_decrypt C cwc ciphertext tag nonce aad = Inl InvalidNonceSize \<and>
      GCM_SIV_decrypt C gs ciphertext tag nonce aad = Inl InvalidNonceSize)"
  by (simp add: GCM_decrypt_def CCM_decrypt_def EAX_decrypt_def OCB_decrypt_def
        PMAC_SIV_decrypt_def HybridCTR_decrypt_def CWC_decrypt_def GCM_SIV_decrypt_def)

theorem AEAD_decrypt_wrong_tag_length_witness:
  "length (zeros 8) \<noteq> 16 \<and> length (zeros 8) \<noteq> ccm_tagSize demo_ccm \<and>
   length (zeros 8) \<noteq> eax_tagSize demo_eax \<and> length (zeros 8) \<noteq> ocb_tagSize demo_ocb \<and>
   length (zeros 7) \<noteq> ps_tagSize demo_pmac_siv \<and> length (zeros 8) \<noteq> hy_tagSize demo_hybrid \<and>
   length (zeros 12) = 12 \<and> length (zeros 11) \<noteq> 12 \<and>
   GCM_decrypt demo_cipher demo_gcm demo_block (zeros 8) [] = Inr None \<and>
   CCM_decrypt demo_cipher demo_ccm demo_block (zeros 11) (zeros 8) [] = Inr None \<and>
   EAX_decrypt demo_cipher demo_eax demo_block (zeros 8) (zeros 12) [] = Inr None \<and>
   OCB_decrypt demo_cipher demo_ocb 1 demo_block (zeros 8) (zeros 12) [] = Inr None \<and>
   PMAC_SIV_decrypt demo_cipher demo_pmac_siv demo_block (zeros 7) (zeros 12) [] = Inr None \<and>
   HybridCTR_decrypt demo_cipher demo_hybrid demo_block (zeros 8) (zeros 16) [] (zeros 16) = Inr None \<and>
   CWC_decrypt demo_cipher demo_cwc demo_block (zeros 8) (zeros 12) [] = Inr None \<and>
   GCM_SIV_decrypt demo_cipher demo_gcm_siv demo_block (zeros 8) (zeros 12) [] = Inr None \<and>
   CWC_decrypt demo_cipher demo_cwc demo_block (zeros 8) (zeros 11) [] = Inl InvalidNonceSize \<and>
   GCM_SIV_decrypt demo_cipher demo_gcm_siv demo_block (zeros 8) (zeros 11) [] = Inl InvalidNonceSize"
proof -
  note a = AEAD_decrypt_wrong_tag_length
    [of "zeros 8" demo_cipher demo_gcm demo_block "[]" demo_ccm "zeros 12" demo_eax demo_ocb 1
        demo_pmac_siv demo_hybrid "zeros 16" demo_cwc demo_gcm_siv]
  note b = AEAD_decrypt_wrong_tag_length
    [of "zeros 8" demo_cipher demo_gcm demo_block "[]" demo_ccm "zeros 11" demo_eax demo_ocb 1
        demo_pmac_siv demo_hybrid "zeros 16" demo_cwc demo_gcm_siv]
  note c = AEAD_decrypt_wrong_tag_length
    [of "zeros 7" demo_cipher demo_gcm demo_block "[]" demo_ccm "zeros 12" demo_eax demo_ocb 1
        demo_pmac_siv demo_hybrid "zeros 16" demo_cwc demo_gcm_siv]
  note d = AEAD_decrypt_wrong_tag_length
    [of "zeros 8" demo_cipher demo_gcm demo_block "[]" demo_ccm "zeros 16" demo_eax demo_ocb 1
        demo_pmac_siv demo_hybrid "zeros 16" demo_cwc demo_gcm_siv]
  have t: "ccm_tagSize demo_ccm = 16" "eax_tagSize demo_eax = 16" "ocb_tagSize demo_ocb = 16"
    "ps_tagSize demo_pmac_siv = 8" "hy_tagSize demo_hybrid = 16"
    by (simp_all add: demo_ccm_def demo_eax_def demo_ocb_def demo_pmac_siv_def demo_hybrid_def)
  show ?thesis
    using a b c d by (simp add: t)
qed

text \<open>
  The claim as stated fails: with an empty tag and an empty nonce, \<^verbatim>\<open>decrypt\<close> of CWC and
  of GCM-SIV raises.
\<close>

theorem CWC_GCM_SIV_decrypt_raise_on_nonce:
  "length ([] :: bytes) \<noteq> 16 \<and>
   CWC_decrypt demo_cipher demo_cwc demo_block [] [] [] = Inl InvalidNonceSize \<and>
   GCM_SIV_decrypt demo_cipher demo_gcm_siv demo_block [] [] [] = Inl InvalidNonceSize"
  by (simp add: CWC_decrypt_def GCM_SIV_decrypt_def)

end
